theory Spec2Isabelle
  imports Main "HOL-Library.Sublist"
begin

section \<open>Strings of the Go standard library\<close>

text \<open>
  A Go string is a sequence of bytes, here a \<^typ>\<open>string\<close>. The functions below are
  the library functions the program calls (\<open>strings.ToLower\<close>, \<open>strings.TrimSpace\<close>,
  \<open>strings.Trim\<close>, \<open>strings.Join\<close>, \<open>strings.Contains\<close>, \<open>strconv.Atoi\<close>,
  \<open>strconv.Itoa\<close>), written on bytes.
\<close>

definition byte_of :: "char \<Rightarrow> nat" where
  "byte_of c = of_char c"

definition is_upper :: "char \<Rightarrow> bool" where
  "is_upper c = (byte_of CHR ''A'' \<le> byte_of c \<and> byte_of c \<le> byte_of CHR ''Z'')"

definition is_lower :: "char \<Rightarrow> bool" where
  "is_lower c = (byte_of CHR ''a'' \<le> byte_of c \<and> byte_of c \<le> byte_of CHR ''z'')"

definition is_digit :: "char \<Rightarrow> bool" where
  "is_digit c = (byte_of CHR ''0'' \<le> byte_of c \<and> byte_of c \<le> byte_of CHR ''9'')"

definition lower_byte :: "char \<Rightarrow> char" where
  "lower_byte c =
     (if is_upper c
      then (case c of Char b0 b1 b2 b3 b4 b5 b6 b7 \<Rightarrow> Char b0 b1 b2 b3 b4 True b6 b7)
      else c)"

text \<open>
  \<open>strings.ToLower\<close>. An ASCII capital letter is mapped to its lower case, which is the
  same byte with bit \<open>0x20\<close> set. Of the runes outside ASCII, exactly two have an ASCII
  lower case in Go's tables: U+0130 (bytes C4 B0, lower case \<open>i\<close>) and U+212A (bytes
  E2 84 AA, lower case \<open>k\<close>). Every other rune outside ASCII is mapped to a rune outside
  ASCII; the model leaves its bytes as they are, which the program cannot tell apart: it
  only compares the result with ASCII words and replaces the runs of bytes that are not
  ASCII letters or digits.
\<close>

fun ToLower :: "string \<Rightarrow> string" where
  "ToLower [] = []"
| "ToLower (c # cs) =
     (if c = CHR 0xC4 then
        (case cs of
           d # ds \<Rightarrow> if d = CHR 0xB0 then CHR ''i'' # ToLower ds
                     else c # ToLower cs
         | [] \<Rightarrow> [c])
      else if c = CHR 0xE2 then
        (case cs of
           d # e # es \<Rightarrow>
             if d = CHR 0x84 \<and> e = CHR 0xAA then CHR ''k'' # ToLower es
             else c # ToLower cs
         | _ \<Rightarrow> c # ToLower cs)
      else lower_byte c # ToLower cs)"

text \<open>
  \<open>strings.TrimSpace\<close> removes the leading and trailing white space of Unicode: the six
  ASCII characters, U+0085 and U+00A0, and the runes with the property White_Space,
  each given here by its UTF-8 bytes.
\<close>

definition space_seqs :: "string list" where
  "space_seqs =
     [[CHR 0x09],
      [CHR 0x0A],
      [CHR 0x0B],
      [CHR 0x0C],
      [CHR 0x0D],
      [CHR 0x20],
      [CHR 0xC2, CHR 0x85],
      [CHR 0xC2, CHR 0xA0],
      [CHR 0xE1, CHR 0x9A, CHR 0x80],
      [CHR 0xE2, CHR 0x80, CHR 0x80],
      [CHR 0xE2, CHR 0x80, CHR 0x81],
      [CHR 0xE2, CHR 0x80, CHR 0x82],
      [CHR 0xE2, CHR 0x80, CHR 0x83],
      [CHR 0xE2, CHR 0x80, CHR 0x84],
      [CHR 0xE2, CHR 0x80, CHR 0x85],
      [CHR 0xE2, CHR 0x80, CHR 0x86],
      [CHR 0xE2, CHR 0x80, CHR 0x87],
      [CHR 0xE2, CHR 0x80, CHR 0x88],
      [CHR 0xE2, CHR 0x80, CHR 0x89],
      [CHR 0xE2, CHR 0x80, CHR 0x8A],
      [CHR 0xE2, CHR 0x80, CHR 0xA8],
      [CHR 0xE2, CHR 0x80, CHR 0xA9],
      [CHR 0xE2, CHR 0x80, CHR 0xAF],
      [CHR 0xE2, CHR 0x81, CHR 0x9F],
      [CHR 0xE3, CHR 0x80, CHR 0x80]]"

function strip_prefixes :: "string list \<Rightarrow> string \<Rightarrow> string" where
  "strip_prefixes ws s =
     (case find (\<lambda>w. w \<noteq> [] \<and> prefix w s) ws of
        None \<Rightarrow> s
      | Some w \<Rightarrow> strip_prefixes ws (drop (length w) s))"
  by pat_completeness auto
termination
proof (relation "measure (\<lambda>(ws, s). length s)")
  show "wf (measure (\<lambda>(ws, s). length s))" by simp
next
  fix ws :: "string list" and s w :: string
  assume "find (\<lambda>w. w \<noteq> [] \<and> prefix w s) ws = Some w"
  then have "w \<noteq> []" and "prefix w s"
    by (auto simp: find_Some_iff)
  then have "s \<noteq> []" by auto
  with \<open>w \<noteq> []\<close> show "((ws, drop (length w) s), (ws, s)) \<in> measure (\<lambda>(ws, s). length s)"
    by simp
qed

declare strip_prefixes.simps [simp del]

definition TrimSpace :: "string \<Rightarrow> string" where
  "TrimSpace s =
     rev (strip_prefixes (map rev space_seqs) (rev (strip_prefixes space_seqs s)))"

text \<open>\<open>strings.Trim(s, "-")\<close>: every leading and trailing hyphen is removed.\<close>

definition Trim_hyphen :: "string \<Rightarrow> string" where
  "Trim_hyphen s =
     rev (dropWhile (\<lambda>c. c = CHR ''-'') (rev (dropWhile (\<lambda>c. c = CHR ''-'') s)))"

fun Join :: "string list \<Rightarrow> string \<Rightarrow> string" where
  "Join [] sep = []"
| "Join [x] sep = x"
| "Join (x # y # ys) sep = x @ sep @ Join (y # ys) sep"

fun Contains :: "string \<Rightarrow> string \<Rightarrow> bool" where
  "Contains [] sub = (sub = [])"
| "Contains (c # cs) sub = (prefix sub (c # cs) \<or> Contains cs sub)"









section \<open>The regular expression of \<open>extractAC\<close>\<close>

text \<open>
  Go's \<open>regexp\<close> returns the leftmost match and, among the matches that start there, the
  one a backtracking search finds first: a greedy star takes as much as it can and gives
  back one character at a time, a lazy star takes as little as it can, an alternation
  tries its left side first. The expressions of the program are sequences of the atoms
  below. \<open>rx_match\<close> matches a sequence at the start of a text and returns the text each
  atom has consumed.
\<close>

datatype atom =
    One "char \<Rightarrow> bool"
  | Greedy "char \<Rightarrow> bool"
  | Lazy "char \<Rightarrow> bool"
  | EndOfText
  | Alt "atom list" "atom list"

definition cons_first :: "char \<Rightarrow> string list \<Rightarrow> string list" where
  "cons_first c r = (case r of [] \<Rightarrow> [[c]] | x # xs \<Rightarrow> (c # x) # xs)"

definition group :: "nat \<Rightarrow> string list \<Rightarrow> string list" where
  "group n r = concat (take n r) # drop n r"

function rx_match :: "atom list \<Rightarrow> string \<Rightarrow> string list option" where
  "rx_match [] s = Some []"
| "rx_match (One p # as) s =
     (case s of
        [] \<Rightarrow> None
      | c # cs \<Rightarrow> if p c then map_option ((#) [c]) (rx_match as cs) else None)"
| "rx_match (Greedy p # as) s =
     (case s of
        [] \<Rightarrow> map_option ((#) []) (rx_match as s)
      | c # cs \<Rightarrow>
          if p c then
            (case rx_match (Greedy p # as) cs of
               Some r \<Rightarrow> Some (cons_first c r)
             | None \<Rightarrow> map_option ((#) []) (rx_match as s))
          else map_option ((#) []) (rx_match as s))"
| "rx_match (Lazy p # as) s =
     (case rx_match as s of
        Some r \<Rightarrow> Some ([] # r)
      | None \<Rightarrow>
          (case s of
             [] \<Rightarrow> None
           | c # cs \<Rightarrow>
               if p c then map_option (cons_first c) (rx_match (Lazy p # as) cs) else None))"
| "rx_match (EndOfText # as) s =
     (if s = [] then map_option ((#) []) (rx_match as s) else None)"
| "rx_match (Alt a b # as) s =
     (case rx_match (a @ as) s of
        Some r \<Rightarrow> Some (group (length a) r)
      | None \<Rightarrow> map_option (group (length b)) (rx_match (b @ as) s))"
  by pat_completeness auto
termination
  by (relation "measure (\<lambda>(as, s). size_list size as + length s)") auto

text \<open>
  \<open>FindStringSubmatch\<close> for an expression with one capturing group, the atom at position
  \<open>g\<close>: the leftmost match, as the list of the whole match and of the group, or the empty
  list (Go's \<open>nil\<close>) when there is no match.
\<close>

fun find_match :: "atom list \<Rightarrow> string \<Rightarrow> string list option" where
  "find_match re [] = rx_match re []"
| "find_match re (c # cs) =
     (case rx_match re (c # cs) of
        Some r \<Rightarrow> Some r
      | None \<Rightarrow> find_match re cs)"

definition FindStringSubmatch :: "atom list \<Rightarrow> nat \<Rightarrow> string \<Rightarrow> string list" where
  "FindStringSubmatch re g s =
     (case find_match re s of
        None \<Rightarrow> []
      | Some r \<Rightarrow> [concat r, r ! g])"

text \<open>
  The expression \<open>(?i)acceptance\s*criteria[:\s]*([\s\S]*?)(?:\n\n|$)\<close>. Under \<open>(?i)\<close> a
  letter of the expression matches itself and its capital; \<open>\s\<close> is tab, line feed, form
  feed, carriage return and space; \<open>$\<close> is the end of the text.
\<close>

definition ci :: "char \<Rightarrow> char \<Rightarrow> bool" where
  "ci x c = (lower_byte c = x)"

definition is_s :: "char \<Rightarrow> bool" where
  "is_s c = (c = CHR 0x09 \<or> c = CHR 0x0A \<or> c = CHR 0x0C \<or> c = CHR 0x0D \<or> c = CHR 0x20)"

definition colon_or_s :: "char \<Rightarrow> bool" where
  "colon_or_s c = (c = CHR '':'' \<or> is_s c)"

definition is_nl :: "char \<Rightarrow> bool" where
  "is_nl c = (c = CHR 0x0A)"

definition literal_ci :: "string \<Rightarrow> atom list" where
  "literal_ci w = map (\<lambda>x. One (ci x)) w"

definition ac_regex :: "atom list" where
  "ac_regex =
     literal_ci ''acceptance'' @ [Greedy is_s] @ literal_ci ''criteria'' @
     [Greedy colon_or_s, Lazy (\<lambda>c. True), Alt [One is_nl, One is_nl] [EndOfText]]"

definition extractAC :: "string \<Rightarrow> string" where
  "extractAC desc =
     (let m = FindStringSubmatch ac_regex 20 desc
      in if length m > 1 then TrimSpace (m ! 1) else [])"

section \<open>Data model\<close>

text \<open>\<open>Issue\<close> of \<open>jira.go\<close>, with its two predicates.\<close>

record Issue =
  Key :: string
  Title :: string
  Description :: string
  Type :: string
  Priority :: string
  Status :: string
  Labels :: "string list"
  Components :: "string list"
  AcceptanceCriteria :: string

definition IsValidType :: "Issue \<Rightarrow> bool" where
  "IsValidType i =
     (let t = ToLower (Type i)
      in t = ''bug'' \<or> t = ''task'' \<or> t = ''story'' \<or> t = ''sub-task'')"

definition IsClosed :: "Issue \<Rightarrow> bool" where
  "IsClosed i =
     (let s = ToLower (Status i)
      in s = ''done'' \<or> s = ''closed'' \<or> s = ''resolved'' \<or> s = ''cancelled'')"

text \<open>\<open>Config\<close> of \<open>config.go\<close>.\<close>

record JiraConfig =
  BaseURL :: string
  Email :: string
  APIToken :: string
  UseACLI :: bool

record GitHubConfig =
  Token :: string
  Owner :: string
  Repo_name :: string

record RepoConfig =
  CloneURL :: string
  LocalPath :: string
  DefaultBranch :: string

record PollConfig =
  IntervalMinutes :: int
  AutoTransition :: bool

record Config =
  Jira :: JiraConfig
  GitHub :: GitHubConfig
  Repo :: RepoConfig
  Poll :: PollConfig

text \<open>\<open>Result\<close> of \<open>engine.go\<close> and \<open>ProcessedIssue\<close> of \<open>daemon.go\<close>.\<close>

record Result =
  IssueKey :: string
  Status_r :: string
  PRUrl_r :: string
  Error_r :: string

record ProcessedIssue =
  ProcessedAt :: string
  Status_p :: string
  PRUrl_p :: string
  Error_p :: string

type_synonym ledger = "string \<rightharpoonup> ProcessedIssue"

record Git =
  repoPath :: string
  branch :: string
  cloneURL :: string

section \<open>The world outside the program\<close>

text \<open>
  Every call that leaves the program is recorded, in order. \<open>CProcessIssue\<close> marks the
  entry of \<open>ProcessIssue\<close> (where the code prints \<open>Processing: key\<close>); \<open>CSaveProcessed\<close>
  and \<open>CWritePid\<close> are the two \<open>os.WriteFile\<close> calls, with the ledger and the text they
  are given to write.
\<close>

datatype call =
    CProcessIssue string
  | CGetIssue string
  | CGetAssignedIssues
  | CMkdirAll string
  | CClone string string
  | CGit "string list"
  | CClaude string
  | CCreatePR string string string string
  | CAddComment string string
  | CTransition string string
  | CNow
  | CSaveProcessed ledger
  | COpenLog
  | CSpawn
  | CWritePid string

text \<open>
  \<open>runClaude\<close> waits for the command or for ten minutes, whichever comes first; the world
  says which, and with which error the command ended.
\<close>

datatype claude_outcome = Exited "string option" | TenMinutesPassed

text \<open>
  \<open>os.WriteFile\<close> opens the file (creating and truncating it), writes and closes. When
  the file cannot be opened (the directory is missing or not writable) nothing is
  written and the file stays as it was; when the write itself fails the file is left cut
  off. The code drops the error in both cases.
\<close>

datatype write_outcome = Written | NotWritten | Truncated

text \<open>
  The collaborators: the tracker client, the code host client, the \<open>git\<close> and \<open>claude\<close>
  commands, the file system, the clock and the process table. Each takes the world and
  returns its answer with the world after the call. \<open>ext_json\<close> is \<open>encoding/json\<close>: the
  ledger that \<open>json.Unmarshal\<close> reads back from what \<open>json.MarshalIndent\<close> makes of a
  ledger (the same ledger, but for bytes that are not UTF-8, which are replaced). An error
  is its message; the commands
  answer \<open>Inl\<close> with their output when they fail. \<open>CreatePR\<close> and \<open>FormatPRBody\<close> are the
  code host client of the package, taken as they are called in \<open>engine.go\<close>, and
  \<open>abs_path\<close> is the path arithmetic of \<open>NewGit\<close> (\<open>filepath.IsAbs\<close>, \<open>filepath.Join\<close>
  under the configuration directory).
\<close>

record 'w ops =
  ext_GetIssue :: "'w \<Rightarrow> Config \<Rightarrow> string \<Rightarrow> (string + Issue) \<times> 'w"
  ext_GetAssignedIssues :: "'w \<Rightarrow> Config \<Rightarrow> (string + Issue list) \<times> 'w"
  ext_AddComment :: "'w \<Rightarrow> Config \<Rightarrow> string \<Rightarrow> string \<Rightarrow> string option \<times> 'w"
  ext_Transition :: "'w \<Rightarrow> Config \<Rightarrow> string \<Rightarrow> string \<Rightarrow> string option \<times> 'w"
  ext_CreatePR ::
    "'w \<Rightarrow> Config \<Rightarrow> string \<Rightarrow> string \<Rightarrow> string \<Rightarrow> string \<Rightarrow> (string + string) \<times> 'w"
  ext_FormatPRBody :: "Issue \<Rightarrow> string \<Rightarrow> string"
  ext_abs_path :: "string \<Rightarrow> string"
  ext_MkdirAll :: "'w \<Rightarrow> string \<Rightarrow> string option \<times> 'w"
  ext_not_exist :: "'w \<Rightarrow> string \<Rightarrow> string \<Rightarrow> bool"
  ext_clone :: "'w \<Rightarrow> string \<Rightarrow> string \<Rightarrow> (string + string) \<times> 'w"
  ext_git :: "'w \<Rightarrow> string \<Rightarrow> string list \<Rightarrow> (string + string) \<times> 'w"
  ext_claude :: "'w \<Rightarrow> string \<Rightarrow> Issue \<Rightarrow> claude_outcome \<times> 'w"
  ext_now :: "'w \<Rightarrow> string \<times> 'w"
  ext_write_ledger :: "'w \<Rightarrow> write_outcome \<times> 'w"
  ext_json :: "ledger \<Rightarrow> ledger"
  ext_ConfigExists :: "'w \<Rightarrow> bool"
  ext_LoadConfig :: "'w \<Rightarrow> string + Config"
  ext_Getenv :: "'w \<Rightarrow> string \<Rightarrow> string"
  ext_FindProcess :: "'w \<Rightarrow> int \<Rightarrow> bool"
  ext_Signal0 :: "'w \<Rightarrow> int \<Rightarrow> bool"
  ext_open_log :: "'w \<Rightarrow> string option \<times> 'w"
  ext_spawn :: "'w \<Rightarrow> (string + int) \<times> 'w"

text \<open>
  The state of a run: the world, the calls made so far, the package variable
  \<open>processed\<close>, and two files of the configuration directory. The ledger file holds
  the ledger that \<open>json.Unmarshal\<close> reads from it (\<open>None\<close>: no file, or no JSON in it);
  the pid file holds its text.
\<close>

record 'w state =
  world :: 'w
  calls :: "call list"
  processed :: ledger
  processed_file :: "ledger option"
  pid_file :: "string option"

definition ext :: "('w \<Rightarrow> 'a \<times> 'w) \<Rightarrow> call \<Rightarrow> 'w state \<Rightarrow> 'a \<times> 'w state" where
  "ext f c s = (case f (world s) of (r, w') \<Rightarrow> (r, s\<lparr>world := w', calls := calls s @ [c]\<rparr>))"

definition mark :: "call \<Rightarrow> 'w state \<Rightarrow> 'w state" where
  "mark c s = s\<lparr>calls := calls s @ [c]\<rparr>"

section \<open>The git adapter (\<open>git.go\<close>)\<close>

definition NewGit :: "'w ops \<Rightarrow> Config \<Rightarrow> Git" where
  "NewGit ops cfg =
     \<lparr>repoPath = ext_abs_path ops (LocalPath (Repo cfg)),
      branch = DefaultBranch (Repo cfg),
      cloneURL = CloneURL (Repo cfg)\<rparr>"

text \<open>\<open>Git.exec\<close>: the error carries the command line and the output; the output is trimmed.\<close>

definition git_exec ::
  "'w ops \<Rightarrow> Git \<Rightarrow> string list \<Rightarrow> 'w state \<Rightarrow> (string + string) \<times> 'w state" where
  "git_exec ops g args s =
     (case ext (\<lambda>w. ext_git ops w (repoPath g) args) (CGit args) s of
        (Inl out, s') \<Rightarrow> (Inl (''git '' @ Join args '' '' @ '': '' @ out), s')
      | (Inr out, s') \<Rightarrow> (Inr (TrimSpace out), s'))"

definition clone :: "'w ops \<Rightarrow> Git \<Rightarrow> 'w state \<Rightarrow> string option \<times> 'w state" where
  "clone ops g s =
     (case ext (\<lambda>w. ext_clone ops w (cloneURL g) (repoPath g)) (CClone (cloneURL g) (repoPath g)) s of
        (Inl out, s') \<Rightarrow> (Some (''clone failed: '' @ out), s')
      | (Inr out, s') \<Rightarrow> (None, s'))"

definition Git_Init :: "'w ops \<Rightarrow> Git \<Rightarrow> 'w state \<Rightarrow> string option \<times> 'w state" where
  "Git_Init ops g s =
     (case ext (\<lambda>w. ext_MkdirAll ops w (repoPath g)) (CMkdirAll (repoPath g)) s of
        (Some err, s1) \<Rightarrow> (Some err, s1)
      | (None, s1) \<Rightarrow>
          (case (if ext_not_exist ops (world s1) (repoPath g) ''.git''
                 then clone ops g s1 else (None, s1)) of
             (Some err, s2) \<Rightarrow> (Some err, s2)
           | (None, s2) \<Rightarrow>
               (case git_exec ops g [''config'', ''user.email'', ''automation@jira-automation''] s2 of
                  (r3, s3) \<Rightarrow>
                    (case git_exec ops g [''config'', ''user.name'', ''Jira Automation''] s3 of
                       (r4, s4) \<Rightarrow> (None, s4)))))"

definition Pull :: "'w ops \<Rightarrow> Git \<Rightarrow> 'w state \<Rightarrow> string option \<times> 'w state" where
  "Pull ops g s =
     (case git_exec ops g [''checkout'', branch g] s of
        (Inl err, s1) \<Rightarrow> (Some err, s1)
      | (Inr out, s1) \<Rightarrow>
          (case git_exec ops g [''pull'', ''origin'', branch g] s1 of
             (Inl err, s2) \<Rightarrow> (Some err, s2)
           | (Inr out2, s2) \<Rightarrow> (None, s2)))"

text \<open>
  The branch name. \<open>regexp.MustCompile(`[^a-zA-Z0-9]+`).ReplaceAllString(t, "-")\<close> replaces
  every maximal run of characters that are not ASCII letters or digits by one hyphen. A
  rune outside ASCII is a run of bytes outside ASCII, so the bytes give the same runs.
\<close>

definition is_alnum :: "char \<Rightarrow> bool" where
  "is_alnum c = (is_lower c \<or> is_upper c \<or> is_digit c)"

function ReplaceRuns :: "string \<Rightarrow> string" where
  "ReplaceRuns [] = []"
| "ReplaceRuns (c # cs) =
     (if is_alnum c then c # ReplaceRuns cs
      else CHR ''-'' # ReplaceRuns (dropWhile (\<lambda>d. \<not> is_alnum d) cs))"
  by pat_completeness auto
termination
  by (relation "measure length") (auto simp: length_dropWhile_le less_Suc_eq_le)

definition slug :: "string \<Rightarrow> string" where
  "slug title =
     (let s = Trim_hyphen (ReplaceRuns (ToLower title))
      in if length s > 40 then take 40 s else s)"

definition branch_name :: "string \<Rightarrow> string \<Rightarrow> string" where
  "branch_name issueKey title = ''feature/'' @ issueKey @ ''-'' @ slug title"

definition CreateBranch ::
  "'w ops \<Rightarrow> Git \<Rightarrow> string \<Rightarrow> string \<Rightarrow> 'w state \<Rightarrow> (string + string) \<times> 'w state" where
  "CreateBranch ops g issueKey title s =
     (case Pull ops g s of
        (Some err, s1) \<Rightarrow> (Inl err, s1)
      | (None, s1) \<Rightarrow>
          (let branchName = branch_name issueKey title
           in case git_exec ops g [''branch'', ''-a''] s1 of
                (r, s2) \<Rightarrow>
                  (let out = (case r of Inl err \<Rightarrow> [] | Inr out \<Rightarrow> out)
                   in case (if Contains out branchName
                            then git_exec ops g [''checkout'', branchName] s2
                            else git_exec ops g [''checkout'', ''-b'', branchName] s2) of
                        (r3, s3) \<Rightarrow> (Inr branchName, s3))))"

definition HasChanges :: "'w ops \<Rightarrow> Git \<Rightarrow> 'w state \<Rightarrow> bool \<times> 'w state" where
  "HasChanges ops g s =
     (case git_exec ops g [''status'', ''--porcelain''] s of
        (r, s') \<Rightarrow> ((case r of Inl err \<Rightarrow> [] | Inr out \<Rightarrow> out) \<noteq> [], s'))"

definition CommitAndPush ::
  "'w ops \<Rightarrow> Git \<Rightarrow> string \<Rightarrow> string \<Rightarrow> 'w state \<Rightarrow> string option \<times> 'w state" where
  "CommitAndPush ops g br message s =
     (case git_exec ops g [''add'', ''-A''] s of
        (Inl err, s1) \<Rightarrow> (Some err, s1)
      | (Inr o1, s1) \<Rightarrow>
          (case git_exec ops g [''commit'', ''-m'', message] s1 of
             (Inl err, s2) \<Rightarrow> (Some err, s2)
           | (Inr o2, s2) \<Rightarrow>
               (case git_exec ops g [''push'', ''-u'', ''origin'', br] s2 of
                  (Inl err, s3) \<Rightarrow> (Some err, s3)
                | (Inr o3, s3) \<Rightarrow> (None, s3))))"

section \<open>The pipeline (\<open>engine.go\<close>)\<close>

definition fail :: "Result \<Rightarrow> string \<Rightarrow> string \<Rightarrow> Result" where
  "fail result stage err = result\<lparr>Status_r := ''failed'', Error_r := stage @ '': '' @ err\<rparr>"

definition runClaude :: "'w ops \<Rightarrow> string \<Rightarrow> Issue \<Rightarrow> 'w state \<Rightarrow> string option \<times> 'w state" where
  "runClaude ops path issue s =
     (case ext (\<lambda>w. ext_claude ops w path issue) (CClaude path) s of
        (Exited err, s') \<Rightarrow> (err, s')
      | (TenMinutesPassed, s') \<Rightarrow> (Some ''timeout after 10 minutes'', s'))"

definition GetIssue ::
  "'w ops \<Rightarrow> Config \<Rightarrow> string \<Rightarrow> 'w state \<Rightarrow> (string + Issue) \<times> 'w state" where
  "GetIssue ops cfg issueKey s = ext (\<lambda>w. ext_GetIssue ops w cfg issueKey) (CGetIssue issueKey) s"

definition CreatePR ::
  "'w ops \<Rightarrow> Config \<Rightarrow> string \<Rightarrow> string \<Rightarrow> string \<Rightarrow> string \<Rightarrow> 'w state
    \<Rightarrow> (string + string) \<times> 'w state" where
  "CreatePR ops cfg title body head base s =
     ext (\<lambda>w. ext_CreatePR ops w cfg title body head base) (CCreatePR title body head base) s"

definition AddComment ::
  "'w ops \<Rightarrow> Config \<Rightarrow> string \<Rightarrow> string \<Rightarrow> 'w state \<Rightarrow> string option \<times> 'w state" where
  "AddComment ops cfg issueKey comment s =
     ext (\<lambda>w. ext_AddComment ops w cfg issueKey comment) (CAddComment issueKey comment) s"

definition Transition ::
  "'w ops \<Rightarrow> Config \<Rightarrow> string \<Rightarrow> string \<Rightarrow> 'w state \<Rightarrow> string option \<times> 'w state" where
  "Transition ops cfg issueKey status s =
     ext (\<lambda>w. ext_Transition ops w cfg issueKey status) (CTransition issueKey status) s"

definition ProcessIssue :: "'w ops \<Rightarrow> Config \<Rightarrow> string \<Rightarrow> 'w state \<Rightarrow> Result \<times> 'w state" where
  "ProcessIssue ops cfg issueKey s =
     (let result = \<lparr>IssueKey = issueKey, Status_r = ''started'', PRUrl_r = [], Error_r = []\<rparr>
      in case GetIssue ops cfg issueKey (mark (CProcessIssue issueKey) s) of
        (Inl err, s1) \<Rightarrow> (fail result ''fetch'' err, s1)
      | (Inr issue, s1) \<Rightarrow>
          if \<not> IsValidType issue then (fail result ''validate'' (''invalid type: '' @ Type issue), s1)
          else if IsClosed issue then (fail result ''validate'' (''issue is closed: '' @ Status issue), s1)
          else
            (let g = NewGit ops cfg
             in case Git_Init ops g s1 of
               (Some err, s2) \<Rightarrow> (fail result ''git'' err, s2)
             | (None, s2) \<Rightarrow>
                 (case CreateBranch ops g issueKey (Title issue) s2 of
                    (Inl err, s3) \<Rightarrow> (fail result ''branch'' err, s3)
                  | (Inr branchName, s3) \<Rightarrow>
                      (case runClaude ops (repoPath g) issue s3 of
                         (Some err, s4) \<Rightarrow> (fail result ''claude'' err, s4)
                       | (None, s4) \<Rightarrow>
                           (case HasChanges ops g s4 of
                              (True, s5) \<Rightarrow>
                                (let msg = issueKey @ '': '' @ Title issue @ [CHR 0x0A, CHR 0x0A] @
                                       ''Implemented via factory''
                                 in case CommitAndPush ops g branchName msg s5 of
                                   (Some err, s6) \<Rightarrow> (fail result ''push'' err, s6)
                                 | (None, s6) \<Rightarrow>
                                     (let prTitle = ''['' @ issueKey @ ''] '' @ Title issue;
                                          prBody = ext_FormatPRBody ops issue (BaseURL (Jira cfg))
                                      in case CreatePR ops cfg prTitle prBody branchName
                                                (DefaultBranch (Repo cfg)) s6 of
                                        (Inl err, s7) \<Rightarrow> (fail result ''pr'' err, s7)
                                      | (Inr prURL, s7) \<Rightarrow>
                                          (let result' = result\<lparr>PRUrl_r := prURL\<rparr>
                                           in case AddComment ops cfg issueKey
                                                     (''PR raised: '' @ prURL) s7 of
                                             (r8, s8) \<Rightarrow>
                                               (case (if AutoTransition (Poll cfg)
                                                      then Transition ops cfg issueKey ''In Progress'' s8
                                                      else (None, s8)) of
                                                  (r9, s9) \<Rightarrow>
                                                    (result'\<lparr>Status_r := ''completed''\<rparr>, s9)))))
                            | (False, s5) \<Rightarrow> (result\<lparr>Status_r := ''completed''\<rparr>, s5))))))"

section \<open>The ledger and the poller (\<open>daemon.go\<close>)\<close>

text \<open>
  \<open>loadProcessed\<close>: \<open>json.Unmarshal\<close> into the map adds the entries of the file to the
  entries the map has (the file wins on a common key); without a readable file the map
  stays as it is. \<open>saveProcessed\<close> hands the whole map to \<open>os.WriteFile\<close> and drops the
  error: the file has the new ledger only when the write has succeeded.
\<close>

definition loadProcessed :: "'w state \<Rightarrow> 'w state" where
  "loadProcessed s =
     (case processed_file s of
        None \<Rightarrow> s
      | Some m \<Rightarrow> s\<lparr>processed := processed s ++ m\<rparr>)"

definition saveProcessed :: "'w ops \<Rightarrow> 'w state \<Rightarrow> 'w state" where
  "saveProcessed ops s =
     (case ext (ext_write_ledger ops) (CSaveProcessed (processed s)) s of
        (Written, s') \<Rightarrow> s'\<lparr>processed_file := Some (ext_json ops (processed s))\<rparr>
      | (NotWritten, s') \<Rightarrow> s'
      | (Truncated, s') \<Rightarrow> s'\<lparr>processed_file := None\<rparr>)"

definition GetAssignedIssues ::
  "'w ops \<Rightarrow> Config \<Rightarrow> 'w state \<Rightarrow> (string + Issue list) \<times> 'w state" where
  "GetAssignedIssues ops cfg s = ext (\<lambda>w. ext_GetAssignedIssues ops w cfg) CGetAssignedIssues s"

text \<open>The body of the loop \<open>for _, issue := range newIssues\<close> of \<open>poll\<close>.\<close>

definition poll_item :: "'w ops \<Rightarrow> Config \<Rightarrow> Issue \<Rightarrow> 'w state \<Rightarrow> 'w state" where
  "poll_item ops cfg issue s =
     (case ProcessIssue ops cfg (Key issue) s of
        (result, s1) \<Rightarrow>
          (case ext (ext_now ops) CNow s1 of
             (t, s2) \<Rightarrow>
               saveProcessed ops
                 (s2\<lparr>processed := (processed s2)(Key issue \<mapsto>
                        \<lparr>ProcessedAt = t, Status_p = Status_r result,
                         PRUrl_p = PRUrl_r result, Error_p = Error_r result\<rparr>)\<rparr>)))"

fun poll_loop :: "'w ops \<Rightarrow> Config \<Rightarrow> Issue list \<Rightarrow> 'w state \<Rightarrow> 'w state" where
  "poll_loop ops cfg [] s = s"
| "poll_loop ops cfg (issue # rest) s = poll_loop ops cfg rest (poll_item ops cfg issue s)"

definition poll :: "'w ops \<Rightarrow> Config \<Rightarrow> 'w state \<Rightarrow> 'w state" where
  "poll ops cfg s =
     (case GetAssignedIssues ops cfg s of
        (Inl err, s1) \<Rightarrow> s1
      | (Inr issues, s1) \<Rightarrow>
          (let newIssues = filter (\<lambda>issue. processed s1 (Key issue) = None) issues
           in if newIssues = [] then s1 else poll_loop ops cfg newIssues s1))"







definition ClearProcessed :: "'w ops \<Rightarrow> string \<Rightarrow> 'w state \<Rightarrow> 'w state" where
  "ClearProcessed ops issueKey s =
     (let s1 = loadProcessed s
      in saveProcessed ops
           (if issueKey = [] then s1\<lparr>processed := Map.empty\<rparr>
            else s1\<lparr>processed := (processed s1)(issueKey := None)\<rparr>))"

section \<open>The commands \<open>trigger\<close> and \<open>clear\<close> (\<open>main.go\<close>)\<close>

text \<open>
  Each command runs in a process of its own, where the package variable \<open>processed\<close>
  starts as the empty map. \<open>args\<close> is \<open>os.Args\<close>; the result is the exit code.
\<close>

definition new_process :: "'w state \<Rightarrow> 'w state" where
  "new_process s = s\<lparr>processed := Map.empty\<rparr>"

definition main_trigger :: "'w ops \<Rightarrow> string list \<Rightarrow> 'w state \<Rightarrow> int \<times> 'w state" where
  "main_trigger ops args s0 =
     (let s = new_process s0
      in if length args < 3 then (1, s)
         else if \<not> ext_ConfigExists ops (world s) then (1, s)
         else (case ext_LoadConfig ops (world s) of
                 Inl err \<Rightarrow> (1, s)
               | Inr cfg \<Rightarrow>
                   (case ProcessIssue ops cfg (args ! 2) s of
                      (result, s') \<Rightarrow> (if Status_r result \<noteq> ''completed'' then 1 else 0, s'))))"

definition main_clear :: "'w ops \<Rightarrow> string list \<Rightarrow> 'w state \<Rightarrow> int \<times> 'w state" where
  "main_clear ops args s0 =
     (let s = new_process s0;
          key = (if length args \<ge> 3 then args ! 2 else [])
      in (0, ClearProcessed ops key s))"

section \<open>Properties stated in the words of the specification\<close>

text \<open>
  The slug as the specification describes it: the title in lower case, every character
  that is not a letter or a digit turned into a hyphen and every run of hyphens squeezed
  to one, the hyphens at both ends removed, and the first 40 characters of that.
\<close>

definition hyphenate :: "string \<Rightarrow> string" where
  "hyphenate s = map (\<lambda>c. if is_alnum c then c else CHR ''-'') s"

fun squeeze :: "string \<Rightarrow> string" where
  "squeeze (c # d # cs) =
     (if c = CHR ''-'' \<and> d = CHR ''-'' then squeeze (d # cs) else c # squeeze (d # cs))"
| "squeeze cs = cs"

definition spec_slug :: "string \<Rightarrow> string" where
  "spec_slug title = take 40 (Trim_hyphen (squeeze (hyphenate (ToLower title))))"

text \<open>
  The marker of the acceptance criteria, found without the expression: \<open>after_marker\<close> is
  the text behind the leftmost \<open>acceptance\<close>, white space, \<open>criteria\<close> (in any case), and
  \<open>until_blank\<close> is a text up to its first blank line (two line feeds) or its end.
\<close>

definition strip_ci :: "string \<Rightarrow> string \<Rightarrow> string option" where
  "strip_ci w s =
     (if length w \<le> length s \<and> map lower_byte (take (length w) s) = w
      then Some (drop (length w) s) else None)"

definition marker_at :: "string \<Rightarrow> string option" where
  "marker_at s =
     (case strip_ci ''acceptance'' s of
        None \<Rightarrow> None
      | Some r \<Rightarrow> strip_ci ''criteria'' (dropWhile is_s r))"

fun after_marker :: "string \<Rightarrow> string option" where
  "after_marker [] = None"
| "after_marker (c # cs) =
     (case marker_at (c # cs) of
        Some r \<Rightarrow> Some r
      | None \<Rightarrow> after_marker cs)"

fun until_blank :: "string \<Rightarrow> string" where
  "until_blank (c # d # cs) =
     (if c = CHR 0x0A \<and> d = CHR 0x0A then [] else c # until_blank (d # cs))"
| "until_blank cs = cs"

text \<open>
  The extraction as the specification describes it: the text from behind the marker up to
  the next blank line or the end of the text.
\<close>

definition spec_extractAC :: "string \<Rightarrow> string" where
  "spec_extractAC desc =
     (case after_marker desc of
        None \<Rightarrow> []
      | Some r \<Rightarrow> TrimSpace (until_blank r))"

section \<open>Observing a run\<close>

text \<open>The calls a run has added to the record, and the calls that publish a change.\<close>

definition new_calls :: "'w state \<Rightarrow> 'w state \<Rightarrow> call list" where
  "new_calls s s' = drop (length (calls s)) (calls s')"

definition grows :: "(call \<Rightarrow> bool) \<Rightarrow> 'w state \<Rightarrow> 'w state \<Rightarrow> bool" where
  "grows P s s' = (\<exists>cs. calls s' = calls s @ cs \<and> list_all P cs)"

fun is_publish_call :: "call \<Rightarrow> bool" where
  "is_publish_call (CGit args) =
     (case args of [] \<Rightarrow> False | a # as \<Rightarrow> a = ''add'' \<or> a = ''commit'' \<or> a = ''push'')"
| "is_publish_call (CCreatePR t b h d) = True"
| "is_publish_call (CAddComment k c) = True"
| "is_publish_call (CTransition k c) = True"
| "is_publish_call c = False"

text \<open>
  The calls of the first four steps of a run (fetch, workspace, branch, implementer, and
  the look at the working tree).
\<close>

fun is_prepare_call :: "call \<Rightarrow> bool" where
  "is_prepare_call (CGit args) =
     (case args of
        [] \<Rightarrow> False
      | a # as \<Rightarrow> a = ''config'' \<or> a = ''checkout'' \<or> a = ''pull'' \<or> a = ''branch'' \<or> a = ''status'')"
| "is_prepare_call (CGetIssue k) = True"
| "is_prepare_call (CMkdirAll p) = True"
| "is_prepare_call (CClone u p) = True"
| "is_prepare_call (CClaude p) = True"
| "is_prepare_call c = False"

fun is_entry :: "call \<Rightarrow> bool" where
  "is_entry (CProcessIssue k) = True"
| "is_entry c = False"

fun is_save :: "call \<Rightarrow> bool" where
  "is_save (CSaveProcessed m) = True"
| "is_save c = False"

text \<open>
  A ledger that is read back from its JSON as it is: its keys and its texts are UTF-8.
\<close>

definition json_stable :: "'w ops \<Rightarrow> ledger \<Rightarrow> bool" where
  "json_stable ops m = (ext_json ops m = m)"

text \<open>The keys on which \<open>ProcessIssue\<close> has been entered, in the order of the calls.\<close>

fun entry_keys :: "call list \<Rightarrow> string list" where
  "entry_keys [] = []"
| "entry_keys (CProcessIssue k # cs) = k # entry_keys cs"
| "entry_keys (c # cs) = entry_keys cs"

text \<open>A step that leaves the ledger, the ledger file and the pid file as they are.\<close>

definition keeps_files :: "'w state \<Rightarrow> 'w state \<Rightarrow> bool" where
  "keeps_files s s' =
     (processed s' = processed s \<and> processed_file s' = processed_file s \<and>
      pid_file s' = pid_file s)"

text \<open>The ledger a new process reads from the ledger file.\<close>

definition ledger_on_disk :: "'w state \<Rightarrow> ledger" where
  "ledger_on_disk s = (case processed_file s of None \<Rightarrow> Map.empty | Some m \<Rightarrow> m)"

text \<open>
  Steps 4 to 6 of \<open>ProcessIssue\<close> (what follows a successful \<open>runClaude\<close>) as a
  function of their own, which the proofs treat as one step: \<open>ProcessIssue_steps\<close>.
\<close>

definition publish ::
  "'w ops \<Rightarrow> Config \<Rightarrow> Git \<Rightarrow> Issue \<Rightarrow> string \<Rightarrow> Result \<Rightarrow> 'w state \<Rightarrow> Result \<times> 'w state" where
  "publish ops cfg g issue branchName result s =
     (let issueKey = IssueKey result
      in case HasChanges ops g s of
        (True, s1) \<Rightarrow>
          (let msg = issueKey @ '': '' @ Title issue @ [CHR 0x0A, CHR 0x0A] @ ''Implemented via factory''
           in case CommitAndPush ops g branchName msg s1 of
                (Some err, s2) \<Rightarrow> (fail result ''push'' err, s2)
              | (None, s2) \<Rightarrow>
                  (let prTitle = ''['' @ issueKey @ ''] '' @ Title issue;
                       prBody = ext_FormatPRBody ops issue (BaseURL (Jira cfg))
                   in case CreatePR ops cfg prTitle prBody branchName (DefaultBranch (Repo cfg)) s2 of
                        (Inl err, s3) \<Rightarrow> (fail result ''pr'' err, s3)
                      | (Inr prURL, s3) \<Rightarrow>
                          (let result' = result\<lparr>PRUrl_r := prURL\<rparr>
                           in case AddComment ops cfg issueKey (''PR raised: '' @ prURL) s3 of
                                (r4, s4) \<Rightarrow>
                                  (case (if AutoTransition (Poll cfg)
                                         then Transition ops cfg issueKey ''In Progress'' s4
                                         else (None, s4)) of
                                     (r5, s5) \<Rightarrow> (result'\<lparr>Status_r := ''completed''\<rparr>, s5)))))
      | (False, s1) \<Rightarrow> (result\<lparr>Status_r := ''completed''\<rparr>, s1))"

text \<open>
  The result \<open>ProcessIssue\<close> starts from, and the two shapes a result can end in: failed
  at a stage, or completed, with or without the address of a pull request.
\<close>

definition started :: "string \<Rightarrow> Result" where
  "started issueKey = \<lparr>IssueKey = issueKey, Status_r = ''started'', PRUrl_r = [], Error_r = []\<rparr>"

definition outcome_of :: "Result \<Rightarrow> Result \<Rightarrow> bool" where
  "outcome_of r0 r =
     ((\<exists>stage e. r = fail r0 stage e) \<or> (\<exists>u. r = r0\<lparr>PRUrl_r := u, Status_r := ''completed''\<rparr>))"

section \<open>An example world\<close>

text \<open>
  A world with a fixed tracker content and fixed answers, on which the properties below
  are also evaluated: \<open>d_issues\<close> are the issues of the tracker, \<open>d_has_git\<close> says whether
  the working tree exists, \<open>d_failing_git\<close> lists the git subcommands that fail,
  \<open>d_status\<close> is the output of \<open>git status\<close>, \<open>d_alive\<close> lists the live processes and
  \<open>d_env\<close> is the value of \<open>FACTORY_DAEMON\<close>.
\<close>

record demo =
  d_issues :: "Issue list"
  d_has_git :: bool
  d_clone_fails :: bool
  d_failing_git :: "string list"
  d_status :: string
  d_alive :: "int list"
  d_env :: string

definition demo_cfg :: Config where
  "demo_cfg =
     \<lparr>Jira = \<lparr>BaseURL = ''https://jira.example.org'', Email = ''dev@example.org'',
              APIToken = ''token'', UseACLI = True\<rparr>,
      GitHub = \<lparr>Token = ''token'', Owner = ''org'', Repo_name = ''repo''\<rparr>,
      Repo = \<lparr>CloneURL = ''https://example.org/org/repo.git'', LocalPath = ''/work'',
              DefaultBranch = ''main''\<rparr>,
      Poll = \<lparr>IntervalMinutes = 5, AutoTransition = True\<rparr>\<rparr>"

definition demo_ops :: "demo ops" where
  "demo_ops =
     \<lparr>ext_GetIssue = (\<lambda>w cfg k.
        (case find (\<lambda>i. Key i = k) (d_issues w) of
           None \<Rightarrow> Inl ''issue not found''
         | Some i \<Rightarrow> Inr i, w)),
      ext_GetAssignedIssues = (\<lambda>w cfg. (Inr (d_issues w), w)),
      ext_AddComment = (\<lambda>w cfg k c. (None, w)),
      ext_Transition = (\<lambda>w cfg k c. (None, w)),
      ext_CreatePR = (\<lambda>w cfg t b h d. (Inr ''https://example.org/pull/1'', w)),
      ext_FormatPRBody = (\<lambda>i url. Description i),
      ext_abs_path = (\<lambda>p. p),
      ext_MkdirAll = (\<lambda>w p. (None, w)),
      ext_not_exist = (\<lambda>w p n. \<not> d_has_git w),
      ext_clone = (\<lambda>w u p.
        (if d_clone_fails w then Inl ''fatal: repository not found'' else Inr [], w)),
      ext_git = (\<lambda>w dir args.
        (if args \<noteq> [] \<and> hd args \<in> set (d_failing_git w) then Inl ''fatal''
         else if args \<noteq> [] \<and> hd args = ''status'' then Inr (d_status w)
         else Inr [], w)),
      ext_claude = (\<lambda>w p i. (Exited None, w)),
      ext_now = (\<lambda>w. (''2024-01-14T10:30:00Z'', w)),
      ext_write_ledger = (\<lambda>w. (Written, w)),
      ext_json = (\<lambda>m. m),
      ext_ConfigExists = (\<lambda>w. True),
      ext_LoadConfig = (\<lambda>w. Inr demo_cfg),
      ext_Getenv = (\<lambda>w n. d_env w),
      ext_FindProcess = (\<lambda>w pid. True),
      ext_Signal0 = (\<lambda>w pid. pid \<in> set (d_alive w)),
      ext_open_log = (\<lambda>w. (None, w)),
      ext_spawn = (\<lambda>w. (Inr 4242, w))\<rparr>"

definition demo_issue :: "string \<Rightarrow> string \<Rightarrow> string \<Rightarrow> Issue" where
  "demo_issue k ty st =
     \<lparr>Key = k, Title = ''Fix the login page'', Description = ''Login fails'',
      Type = ty, Priority = ''High'', Status = st, Labels = [], Components = [],
      AcceptanceCriteria = []\<rparr>"

definition demo_world :: demo where
  "demo_world =
     \<lparr>d_issues = [demo_issue ''K-1'' ''Bug'' ''Open'', demo_issue ''K-2'' ''Epic'' ''Open'',
                  demo_issue ''K-3'' ''Task'' ''Done''],
      d_has_git = True, d_clone_fails = False, d_failing_git = [], d_status = '' M main.go'',
      d_alive = [4711], d_env = []\<rparr>"

definition demo_state :: "demo \<Rightarrow> demo state" where
  "demo_state w =
     \<lparr>world = w, calls = [], processed = Map.empty, processed_file = None, pid_file = None\<rparr>"

section \<open>The shape of a result\<close>

lemma ProcessIssue_steps:
  "ProcessIssue ops cfg issueKey s =
     (let result = \<lparr>IssueKey = issueKey, Status_r = ''started'', PRUrl_r = [], Error_r = []\<rparr>
      in case GetIssue ops cfg issueKey (mark (CProcessIssue issueKey) s) of
        (Inl err, s1) \<Rightarrow> (fail result ''fetch'' err, s1)
      | (Inr issue, s1) \<Rightarrow>
          if \<not> IsValidType issue then (fail result ''validate'' (''invalid type: '' @ Type issue), s1)
          else if IsClosed issue then (fail result ''validate'' (''issue is closed: '' @ Status issue), s1)
          else
            (let g = NewGit ops cfg
             in case Git_Init ops g s1 of
               (Some err, s2) \<Rightarrow> (fail result ''git'' err, s2)
             | (None, s2) \<Rightarrow>
                 (case CreateBranch ops g issueKey (Title issue) s2 of
                    (Inl err, s3) \<Rightarrow> (fail result ''branch'' err, s3)
                  | (Inr branchName, s3) \<Rightarrow>
                      (case runClaude ops (repoPath g) issue s3 of
                         (Some err, s4) \<Rightarrow> (fail result ''claude'' err, s4)
                       | (None, s4) \<Rightarrow> publish ops cfg g issue branchName result s4))))"
  unfolding ProcessIssue_def publish_def Let_def
  by (auto split: prod.splits sum.splits option.splits bool.splits)

lemma outcome_fail: "outcome_of r0 (fail r0 stage e)"
  unfolding outcome_of_def by blast

lemma outcome_completed: "PRUrl_r r0 = u \<Longrightarrow> outcome_of r0 (r0\<lparr>Status_r := ''completed''\<rparr>)"
  unfolding outcome_of_def by (rule disjI2, rule exI [of _ u]) simp

lemma outcome_url: "outcome_of r0 (r0\<lparr>PRUrl_r := u, Status_r := ''completed''\<rparr>)"
  unfolding outcome_of_def by blast

lemma publish_result: "outcome_of result (fst (publish ops cfg g issue b result s))"
  unfolding publish_def Let_def
  by (auto split: prod.splits sum.splits option.splits bool.splits if_splits
        intro: outcome_fail outcome_completed outcome_url)

lemma ProcessIssue_result: "outcome_of (started k) (fst (ProcessIssue ops cfg k s))"
  unfolding ProcessIssue_steps Let_def started_def [symmetric]
  by (auto split: prod.splits sum.splits option.splits if_splits
        intro: outcome_fail publish_result)

lemma outcome_started_cases:
  assumes "outcome_of (started k) r"
  shows "(Status_r r = ''failed'' \<and> PRUrl_r r = []) \<or> (Status_r r = ''completed'' \<and> Error_r r = [])"
  using assms unfolding outcome_of_def started_def fail_def by auto

lemma ProcessIssue_terminal:
  "Status_r (fst (ProcessIssue ops cfg k s)) = ''failed'' \<or>
   Status_r (fst (ProcessIssue ops cfg k s)) = ''completed''"
  using outcome_started_cases [OF ProcessIssue_result [of k ops cfg s]] by blast

lemma ProcessIssue_failed_no_url:
  "Status_r (fst (ProcessIssue ops cfg k s)) = ''failed'' \<Longrightarrow>
   PRUrl_r (fst (ProcessIssue ops cfg k s)) = []"
  using outcome_started_cases [OF ProcessIssue_result [of k ops cfg s]] by auto

text \<open>
  C10. A result of \<open>ProcessIssue\<close> that carries the address of a pull request has the
  status \<open>completed\<close>: the address is set only after \<open>CreatePR\<close> has succeeded, and nothing
  after that fails the run. (A failed result therefore has no address:
  \<open>ProcessIssue_failed_no_url\<close>.)
\<close>

theorem url_implies_completed:
  assumes "PRUrl_r (fst (ProcessIssue ops cfg k s)) \<noteq> []"
  shows "Status_r (fst (ProcessIssue ops cfg k s)) = ''completed''"
  using assms outcome_started_cases [OF ProcessIssue_result [of k ops cfg s]] by auto

theorem url_implies_completed_witness:
  "PRUrl_r (fst (ProcessIssue demo_ops demo_cfg ''K-1'' (demo_state demo_world))) \<noteq> [] \<and>
   Status_r (fst (ProcessIssue demo_ops demo_cfg ''K-1'' (demo_state demo_world))) = ''completed''"
proof -
  have h: "PRUrl_r (fst (ProcessIssue demo_ops demo_cfg ''K-1'' (demo_state demo_world))) \<noteq> []"
    by code_simp
  from url_implies_completed [OF h] h show ?thesis by simp
qed

section \<open>Validation\<close>

lemma calls_ext: "calls (snd (ext f c s)) = calls s @ [c]"
  by (simp add: ext_def split: prod.splits)

lemma new_calls_append: "calls s' = calls s @ cs \<Longrightarrow> new_calls s s' = cs"
  by (simp add: new_calls_def)

lemma publish_error:
  "Status_r (fst (publish ops cfg g issue b (started k) s)) = ''completed'' \<or>
   (\<exists>e. Error_r (fst (publish ops cfg g issue b (started k) s)) = ''push: '' @ e) \<or>
   (\<exists>e. Error_r (fst (publish ops cfg g issue b (started k) s)) = ''pr: '' @ e)"
  unfolding publish_def Let_def
  by (auto simp: fail_def split: prod.splits sum.splits option.splits bool.splits if_splits)

lemma ProcessIssue_rejected_type:
  assumes "GetIssue ops cfg k (mark (CProcessIssue k) s) = (Inr issue, s1)"
    and "\<not> IsValidType issue"
  shows "ProcessIssue ops cfg k s = (fail (started k) ''validate'' (''invalid type: '' @ Type issue), s1)"
  using assms by (simp add: ProcessIssue_steps started_def)

lemma ProcessIssue_rejected_closed:
  assumes "GetIssue ops cfg k (mark (CProcessIssue k) s) = (Inr issue, s1)"
    and "IsValidType issue" and "IsClosed issue"
  shows "ProcessIssue ops cfg k s = (fail (started k) ''validate'' (''issue is closed: '' @ Status issue), s1)"
  using assms by (simp add: ProcessIssue_steps started_def)

lemma ProcessIssue_accepted:
  assumes "GetIssue ops cfg k (mark (CProcessIssue k) s) = (Inr issue, s1)"
    and "IsValidType issue" and "\<not> IsClosed issue"
  shows "Status_r (fst (ProcessIssue ops cfg k s)) = ''completed'' \<or>
   (\<exists>e. Error_r (fst (ProcessIssue ops cfg k s)) = ''git: '' @ e) \<or>
   (\<exists>e. Error_r (fst (ProcessIssue ops cfg k s)) = ''branch: '' @ e) \<or>
   (\<exists>e. Error_r (fst (ProcessIssue ops cfg k s)) = ''claude: '' @ e) \<or>
   (\<exists>e. Error_r (fst (ProcessIssue ops cfg k s)) = ''push: '' @ e) \<or>
   (\<exists>e. Error_r (fst (ProcessIssue ops cfg k s)) = ''pr: '' @ e)"
  using assms publish_error [of ops cfg "NewGit ops cfg" issue _ k]
  unfolding ProcessIssue_steps Let_def started_def [symmetric]
  by (auto simp: fail_def split: prod.splits sum.splits option.splits)

lemma fetch_calls:
  assumes "GetIssue ops cfg k (mark (CProcessIssue k) s) = (Inr issue, s1)"
  shows "new_calls s s1 = [CProcessIssue k, CGetIssue k]"
proof -
  have "calls s1 = calls (snd (GetIssue ops cfg k (mark (CProcessIssue k) s)))"
    using assms by simp
  then have "calls s1 = calls s @ [CProcessIssue k, CGetIssue k]"
    by (simp add: GetIssue_def calls_ext mark_def)
  then show ?thesis by (rule new_calls_append)
qed

text \<open>
  C3. For a fetched issue, \<open>ProcessIssue\<close> fails at the stage \<open>validate\<close> with the
  reason \<open>invalid type\<close> exactly when the type in lower case is none of \<open>bug\<close>, \<open>task\<close>,
  \<open>story\<close>, \<open>sub-task\<close>; for an accepted type it fails at \<open>validate\<close> with the reason
  \<open>issue is closed\<close> exactly when the status in lower case is one of \<open>done\<close>, \<open>closed\<close>,
  \<open>resolved\<close>, \<open>cancelled\<close>. In both cases the run ends in the state the fetch has left:
  the only calls are the entry and the fetch, so nothing touches the workspace, the
  branch, the implementer or the code host.
\<close>

theorem validate_rejects:
  assumes "GetIssue ops cfg k (mark (CProcessIssue k) s) = (Inr issue, s1)"
  shows "((Status_r (fst (ProcessIssue ops cfg k s)) = ''failed'' \<and>
           prefix ''validate: invalid type'' (Error_r (fst (ProcessIssue ops cfg k s))))
          = (\<not> IsValidType issue)) \<and>
         (IsValidType issue \<longrightarrow>
           ((Status_r (fst (ProcessIssue ops cfg k s)) = ''failed'' \<and>
             prefix ''validate: issue is closed'' (Error_r (fst (ProcessIssue ops cfg k s))))
            = IsClosed issue)) \<and>
         (\<not> IsValidType issue \<or> IsClosed issue \<longrightarrow>
           snd (ProcessIssue ops cfg k s) = s1 \<and>
           new_calls s (snd (ProcessIssue ops cfg k s)) = [CProcessIssue k, CGetIssue k]) \<and>
         IsValidType issue = (ToLower (Type issue) \<in> {''bug'', ''task'', ''story'', ''sub-task''}) \<and>
         IsClosed issue = (ToLower (Status issue) \<in> {''done'', ''closed'', ''resolved'', ''cancelled''})"
proof (cases "IsValidType issue")
  case False
  from ProcessIssue_rejected_type [OF assms False] fetch_calls [OF assms] False
  show ?thesis by (simp add: fail_def started_def IsValidType_def IsClosed_def Let_def)
next
  case valid: True
  show ?thesis
  proof (cases "IsClosed issue")
    case True
    from ProcessIssue_rejected_closed [OF assms valid True] fetch_calls [OF assms] valid True
    show ?thesis by (simp add: fail_def started_def IsValidType_def IsClosed_def Let_def)
  next
    case False
    from ProcessIssue_accepted [OF assms valid False]
    have "\<not> (Status_r (fst (ProcessIssue ops cfg k s)) = ''failed'' \<and>
           prefix ''validate: invalid type'' (Error_r (fst (ProcessIssue ops cfg k s))))"
      and "\<not> (Status_r (fst (ProcessIssue ops cfg k s)) = ''failed'' \<and>
             prefix ''validate: issue is closed'' (Error_r (fst (ProcessIssue ops cfg k s))))"
      by auto
    with valid False show ?thesis by (simp add: IsValidType_def IsClosed_def Let_def)
  qed
qed


theorem validate_rejects_witness:
  "GetIssue demo_ops demo_cfg ''K-3'' (mark (CProcessIssue ''K-3'') (demo_state demo_world)) =
     (Inr (demo_issue ''K-3'' ''Task'' ''Done''),
      (demo_state demo_world)\<lparr>calls := [CProcessIssue ''K-3'', CGetIssue ''K-3'']\<rparr>) \<and>
   IsValidType (demo_issue ''K-3'' ''Task'' ''Done'') \<and>
   IsClosed (demo_issue ''K-3'' ''Task'' ''Done'') \<and>
   Status_r (fst (ProcessIssue demo_ops demo_cfg ''K-3'' (demo_state demo_world))) = ''failed'' \<and>
   prefix ''validate: issue is closed''
     (Error_r (fst (ProcessIssue demo_ops demo_cfg ''K-3'' (demo_state demo_world)))) \<and>
   new_calls (demo_state demo_world)
     (snd (ProcessIssue demo_ops demo_cfg ''K-3'' (demo_state demo_world))) =
     [CProcessIssue ''K-3'', CGetIssue ''K-3'']"
proof -
  have fetch:
    "GetIssue demo_ops demo_cfg ''K-3'' (mark (CProcessIssue ''K-3'') (demo_state demo_world)) =
     (Inr (demo_issue ''K-3'' ''Task'' ''Done''),
      (demo_state demo_world)\<lparr>calls := [CProcessIssue ''K-3'', CGetIssue ''K-3'']\<rparr>)"
    by (simp add: GetIssue_def ext_def mark_def demo_ops_def demo_state_def demo_world_def
        demo_issue_def)
  have valid: "IsValidType (demo_issue ''K-3'' ''Task'' ''Done'')"
    by code_simp
  have closed: "IsClosed (demo_issue ''K-3'' ''Task'' ''Done'')"
    by code_simp
  from validate_rejects [OF fetch] fetch valid closed show ?thesis
    by blast
qed

section \<open>The calls of a run\<close>

lemma grows_refl: "grows P s s"
  by (simp add: grows_def)

lemma grows_trans: "grows P s s' \<Longrightarrow> grows P s' s'' \<Longrightarrow> grows P s s''"
  by (auto simp: grows_def)

lemma grows_weaken: "grows P s s' \<Longrightarrow> (\<And>c. P c \<Longrightarrow> Q c) \<Longrightarrow> grows Q s s'"
  by (auto simp: grows_def list_all_iff)

lemma grows_new_calls: "grows P s s' \<Longrightarrow> list_all P (new_calls s s')"
  by (auto simp: grows_def new_calls_def)

lemma grows_mark: "P c \<Longrightarrow> grows P s (mark c s)"
  by (simp add: grows_def mark_def)

lemma grows_ext: "P c \<Longrightarrow> grows P s (snd (ext f c s))"
  by (simp add: grows_def calls_ext)

lemma grows_bind:
  assumes "grows P s (snd (f s))" and "\<And>r s'. grows P s' (snd (k r s'))"
  shows "grows P s (snd (case f s of (r, s') \<Rightarrow> k r s'))"
proof (cases "f s")
  case (Pair r s')
  with assms(1) have "grows P s s'" by simp
  from grows_trans [OF this assms(2) [of s' r]] Pair show ?thesis by simp
qed

lemma grows_git_exec: "P (CGit args) \<Longrightarrow> grows P s (snd (git_exec ops g args s))"
  unfolding git_exec_def
  by (rule grows_bind) (auto intro: grows_ext grows_refl split: sum.split)

lemma grows_clone: "P (CClone (cloneURL g) (repoPath g)) \<Longrightarrow> grows P s (snd (clone ops g s))"
  unfolding clone_def
  by (rule grows_bind) (auto intro: grows_ext grows_refl split: sum.split)

lemma grows_Git_Init: "grows is_prepare_call s (snd (Git_Init ops g s))"
  unfolding Git_Init_def
  by (auto intro!: grows_bind grows_ext grows_refl grows_git_exec grows_clone
        split: option.split sum.split)

lemma grows_Pull: "grows is_prepare_call s (snd (Pull ops g s))"
  unfolding Pull_def
  by (auto intro!: grows_bind grows_refl grows_git_exec split: option.split sum.split)

lemma grows_CreateBranch: "grows is_prepare_call s (snd (CreateBranch ops g k title s))"
  unfolding CreateBranch_def Let_def
  by (auto intro!: grows_bind grows_refl grows_git_exec grows_Pull split: option.split sum.split)

lemma grows_runClaude: "grows is_prepare_call s (snd (runClaude ops path issue s))"
  unfolding runClaude_def
  by (auto intro!: grows_bind grows_refl grows_ext split: claude_outcome.split)

lemma grows_HasChanges: "grows is_prepare_call s (snd (HasChanges ops g s))"
  unfolding HasChanges_def
  by (auto intro!: grows_bind grows_refl grows_git_exec)

lemma grows_CommitAndPush: "grows is_publish_call s (snd (CommitAndPush ops g br msg s))"
  unfolding CommitAndPush_def
  by (auto intro!: grows_bind grows_refl grows_git_exec split: option.split sum.split)

lemma grows_publish:
  "grows (\<lambda>c. is_prepare_call c \<or> is_publish_call c) s (snd (publish ops cfg g issue b result s))"
  unfolding publish_def Let_def CreatePR_def AddComment_def Transition_def
  by (auto intro!: grows_bind grows_refl grows_ext
        grows_weaken [OF grows_HasChanges] grows_weaken [OF grows_CommitAndPush]
        split: option.split sum.split bool.split)

lemma grows_ProcessIssue:
  "grows (\<lambda>c. is_prepare_call c \<or> is_publish_call c) (mark (CProcessIssue k) s)
     (snd (ProcessIssue ops cfg k s))"
  unfolding ProcessIssue_steps Let_def GetIssue_def
  by (auto intro!: grows_bind grows_refl grows_ext grows_publish
        grows_weaken [OF grows_Git_Init] grows_weaken [OF grows_CreateBranch]
        grows_weaken [OF grows_runClaude]
        split: option.split sum.split)

section \<open>A run without changes\<close>

lemma prepare_not_publish: "is_entry c \<or> is_prepare_call c \<Longrightarrow> \<not> is_publish_call c"
  by (cases c) (auto split: list.splits)

lemma grows_from: "f s = (r, s') \<Longrightarrow> grows P s (snd (f s)) \<Longrightarrow> grows P s s'"
  by simp

text \<open>
  C4. When the working tree has no changes after the implementer has run, \<open>ProcessIssue\<close>
  returns the status \<open>completed\<close> with no address of a pull request and no error, and the
  whole run has made no call that stages, commits or pushes, that creates a pull request,
  or that comments on or moves the issue in the tracker.
\<close>

theorem no_changes_completed:
  assumes fetch: "GetIssue ops cfg k (mark (CProcessIssue k) s) = (Inr issue, s1)"
    and valid: "IsValidType issue" and "open": "\<not> IsClosed issue"
    and init: "Git_Init ops (NewGit ops cfg) s1 = (None, s2)"
    and br: "CreateBranch ops (NewGit ops cfg) k (Title issue) s2 = (Inr b, s3)"
    and run: "runClaude ops (repoPath (NewGit ops cfg)) issue s3 = (None, s4)"
    and clean: "HasChanges ops (NewGit ops cfg) s4 = (False, s5)"
  shows "ProcessIssue ops cfg k s =
           (\<lparr>IssueKey = k, Status_r = ''completed'', PRUrl_r = [], Error_r = []\<rparr>, s5) \<and>
         list_all (\<lambda>c. \<not> is_publish_call c) (new_calls s s5)"
proof -
  let ?P = "\<lambda>c. is_entry c \<or> is_prepare_call c"
  have result: "ProcessIssue ops cfg k s =
      (\<lparr>IssueKey = k, Status_r = ''completed'', PRUrl_r = [], Error_r = []\<rparr>, s5)"
    using assms by (simp add: ProcessIssue_steps publish_def Let_def)
  have "grows ?P s (mark (CProcessIssue k) s)"
    by (rule grows_mark) simp
  moreover have "grows ?P (mark (CProcessIssue k) s) s1"
    using fetch unfolding GetIssue_def by (rule grows_from) (rule grows_ext, simp)
  moreover have "grows ?P s1 s2"
    using init by (rule grows_from) (rule grows_weaken [OF grows_Git_Init], simp)
  moreover have "grows ?P s2 s3"
    using br by (rule grows_from) (rule grows_weaken [OF grows_CreateBranch], simp)
  moreover have "grows ?P s3 s4"
    using run by (rule grows_from) (rule grows_weaken [OF grows_runClaude], simp)
  moreover have "grows ?P s4 s5"
    using clean by (rule grows_from) (rule grows_weaken [OF grows_HasChanges], simp)
  ultimately have "grows ?P s s5"
    by (blast intro: grows_trans)
  then have "grows (\<lambda>c. \<not> is_publish_call c) s s5"
    by (rule grows_weaken) (rule prepare_not_publish)
  then have "list_all (\<lambda>c. \<not> is_publish_call c) (new_calls s s5)"
    by (rule grows_new_calls)
  with result show ?thesis by simp
qed

theorem no_changes_completed_witness:
  "GetIssue demo_ops demo_cfg ''K-1'' (mark (CProcessIssue ''K-1'') (demo_state (demo_world\<lparr>d_status := []\<rparr>))) =
     (Inr (demo_issue ''K-1'' ''Bug'' ''Open''), ((demo_state (demo_world\<lparr>d_status := []\<rparr>))\<lparr>calls :=
       [CProcessIssue ''K-1'',
        CGetIssue ''K-1'']\<rparr>)) \<and>
   IsValidType (demo_issue ''K-1'' ''Bug'' ''Open'') \<and>
   \<not> IsClosed (demo_issue ''K-1'' ''Bug'' ''Open'') \<and>
   Git_Init demo_ops (NewGit demo_ops demo_cfg) ((demo_state (demo_world\<lparr>d_status := []\<rparr>))\<lparr>calls :=
       [CProcessIssue ''K-1'',
        CGetIssue ''K-1'']\<rparr>) =
     (None, ((demo_state (demo_world\<lparr>d_status := []\<rparr>))\<lparr>calls :=
       [CProcessIssue ''K-1'',
        CGetIssue ''K-1'',
        CMkdirAll ''/work'',
        CGit [''config'', ''user.email'', ''automation@jira-automation''],
        CGit [''config'', ''user.name'', ''Jira Automation'']]\<rparr>)) \<and>
   CreateBranch demo_ops (NewGit demo_ops demo_cfg) ''K-1'' (Title (demo_issue ''K-1'' ''Bug'' ''Open'')) ((demo_state (demo_world\<lparr>d_status := []\<rparr>))\<lparr>calls :=
       [CProcessIssue ''K-1'',
        CGetIssue ''K-1'',
        CMkdirAll ''/work'',
        CGit [''config'', ''user.email'', ''automation@jira-automation''],
        CGit [''config'', ''user.name'', ''Jira Automation'']]\<rparr>) =
     (Inr ''feature/K-1-fix-the-login-page'', ((demo_state (demo_world\<lparr>d_status := []\<rparr>))\<lparr>calls :=
       [CProcessIssue ''K-1'',
        CGetIssue ''K-1'',
        CMkdirAll ''/work'',
        CGit [''config'', ''user.email'', ''automation@jira-automation''],
        CGit [''config'', ''user.name'', ''Jira Automation''],
        CGit [''checkout'', ''main''],
        CGit [''pull'', ''origin'', ''main''],
        CGit [''branch'', ''-a''],
        CGit [''checkout'', ''-b'', ''feature/K-1-fix-the-login-page'']]\<rparr>)) \<and>
   runClaude demo_ops (repoPath (NewGit demo_ops demo_cfg)) (demo_issue ''K-1'' ''Bug'' ''Open'') ((demo_state (demo_world\<lparr>d_status := []\<rparr>))\<lparr>calls :=
       [CProcessIssue ''K-1'',
        CGetIssue ''K-1'',
        CMkdirAll ''/work'',
        CGit [''config'', ''user.email'', ''automation@jira-automation''],
        CGit [''config'', ''user.name'', ''Jira Automation''],
        CGit [''checkout'', ''main''],
        CGit [''pull'', ''origin'', ''main''],
        CGit [''branch'', ''-a''],
        CGit [''checkout'', ''-b'', ''feature/K-1-fix-the-login-page'']]\<rparr>) =
     (None, ((demo_state (demo_world\<lparr>d_status := []\<rparr>))\<lparr>calls :=
       [CProcessIssue ''K-1'',
        CGetIssue ''K-1'',
        CMkdirAll ''/work'',
        CGit [''config'', ''user.email'', ''automation@jira-automation''],
        CGit [''config'', ''user.name'', ''Jira Automation''],
        CGit [''checkout'', ''main''],
        CGit [''pull'', ''origin'', ''main''],
        CGit [''branch'', ''-a''],
        CGit [''checkout'', ''-b'', ''feature/K-1-fix-the-login-page''],
        CClaude ''/work'']\<rparr>)) \<and>
   HasChanges demo_ops (NewGit demo_ops demo_cfg) ((demo_state (demo_world\<lparr>d_status := []\<rparr>))\<lparr>calls :=
       [CProcessIssue ''K-1'',
        CGetIssue ''K-1'',
        CMkdirAll ''/work'',
        CGit [''config'', ''user.email'', ''automation@jira-automation''],
        CGit [''config'', ''user.name'', ''Jira Automation''],
        CGit [''checkout'', ''main''],
        CGit [''pull'', ''origin'', ''main''],
        CGit [''branch'', ''-a''],
        CGit [''checkout'', ''-b'', ''feature/K-1-fix-the-login-page''],
        CClaude ''/work'']\<rparr>) =
     (False, ((demo_state (demo_world\<lparr>d_status := []\<rparr>))\<lparr>calls :=
       [CProcessIssue ''K-1'',
        CGetIssue ''K-1'',
        CMkdirAll ''/work'',
        CGit [''config'', ''user.email'', ''automation@jira-automation''],
        CGit [''config'', ''user.name'', ''Jira Automation''],
        CGit [''checkout'', ''main''],
        CGit [''pull'', ''origin'', ''main''],
        CGit [''branch'', ''-a''],
        CGit [''checkout'', ''-b'', ''feature/K-1-fix-the-login-page''],
        CClaude ''/work'',
        CGit [''status'', ''--porcelain'']]\<rparr>)) \<and>
   ProcessIssue demo_ops demo_cfg ''K-1'' (demo_state (demo_world\<lparr>d_status := []\<rparr>)) =
     (\<lparr>IssueKey = ''K-1'', Status_r = ''completed'', PRUrl_r = [], Error_r = []\<rparr>,
      ((demo_state (demo_world\<lparr>d_status := []\<rparr>))\<lparr>calls :=
       [CProcessIssue ''K-1'',
        CGetIssue ''K-1'',
        CMkdirAll ''/work'',
        CGit [''config'', ''user.email'', ''automation@jira-automation''],
        CGit [''config'', ''user.name'', ''Jira Automation''],
        CGit [''checkout'', ''main''],
        CGit [''pull'', ''origin'', ''main''],
        CGit [''branch'', ''-a''],
        CGit [''checkout'', ''-b'', ''feature/K-1-fix-the-login-page''],
        CClaude ''/work'',
        CGit [''status'', ''--porcelain'']]\<rparr>)) \<and>
   list_all (\<lambda>c. \<not> is_publish_call c)
     (new_calls (demo_state (demo_world\<lparr>d_status := []\<rparr>)) ((demo_state (demo_world\<lparr>d_status := []\<rparr>))\<lparr>calls :=
       [CProcessIssue ''K-1'',
        CGetIssue ''K-1'',
        CMkdirAll ''/work'',
        CGit [''config'', ''user.email'', ''automation@jira-automation''],
        CGit [''config'', ''user.name'', ''Jira Automation''],
        CGit [''checkout'', ''main''],
        CGit [''pull'', ''origin'', ''main''],
        CGit [''branch'', ''-a''],
        CGit [''checkout'', ''-b'', ''feature/K-1-fix-the-login-page''],
        CClaude ''/work'',
        CGit [''status'', ''--porcelain'']]\<rparr>))"
proof -
  have bn: "branch_name ''K-1'' ''Fix the login page'' = ''feature/K-1-fix-the-login-page''"
    by code_simp
  have ts: "TrimSpace [] = []"
    by code_simp
  have fetch:
    "GetIssue demo_ops demo_cfg ''K-1'' (mark (CProcessIssue ''K-1'') (demo_state (demo_world\<lparr>d_status := []\<rparr>))) =
     (Inr (demo_issue ''K-1'' ''Bug'' ''Open''), ((demo_state (demo_world\<lparr>d_status := []\<rparr>))\<lparr>calls :=
       [CProcessIssue ''K-1'',
        CGetIssue ''K-1'']\<rparr>))"
    by (simp add: GetIssue_def Git_Init_def CreateBranch_def Pull_def runClaude_def HasChanges_def
        clone_def git_exec_def ext_def mark_def NewGit_def demo_ops_def demo_cfg_def demo_state_def
        demo_world_def demo_issue_def Let_def bn ts)
  have valid:
    "IsValidType (demo_issue ''K-1'' ''Bug'' ''Open'')"
    by code_simp
  have "open":
    "\<not> IsClosed (demo_issue ''K-1'' ''Bug'' ''Open'')"
    by code_simp
  have init:
    "Git_Init demo_ops (NewGit demo_ops demo_cfg) ((demo_state (demo_world\<lparr>d_status := []\<rparr>))\<lparr>calls :=
       [CProcessIssue ''K-1'',
        CGetIssue ''K-1'']\<rparr>) =
     (None, ((demo_state (demo_world\<lparr>d_status := []\<rparr>))\<lparr>calls :=
       [CProcessIssue ''K-1'',
        CGetIssue ''K-1'',
        CMkdirAll ''/work'',
        CGit [''config'', ''user.email'', ''automation@jira-automation''],
        CGit [''config'', ''user.name'', ''Jira Automation'']]\<rparr>))"
    by (simp add: GetIssue_def Git_Init_def CreateBranch_def Pull_def runClaude_def HasChanges_def
        clone_def git_exec_def ext_def mark_def NewGit_def demo_ops_def demo_cfg_def demo_state_def
        demo_world_def demo_issue_def Let_def bn ts)
  have br:
    "CreateBranch demo_ops (NewGit demo_ops demo_cfg) ''K-1'' (Title (demo_issue ''K-1'' ''Bug'' ''Open'')) ((demo_state (demo_world\<lparr>d_status := []\<rparr>))\<lparr>calls :=
       [CProcessIssue ''K-1'',
        CGetIssue ''K-1'',
        CMkdirAll ''/work'',
        CGit [''config'', ''user.email'', ''automation@jira-automation''],
        CGit [''config'', ''user.name'', ''Jira Automation'']]\<rparr>) =
     (Inr ''feature/K-1-fix-the-login-page'', ((demo_state (demo_world\<lparr>d_status := []\<rparr>))\<lparr>calls :=
       [CProcessIssue ''K-1'',
        CGetIssue ''K-1'',
        CMkdirAll ''/work'',
        CGit [''config'', ''user.email'', ''automation@jira-automation''],
        CGit [''config'', ''user.name'', ''Jira Automation''],
        CGit [''checkout'', ''main''],
        CGit [''pull'', ''origin'', ''main''],
        CGit [''branch'', ''-a''],
        CGit [''checkout'', ''-b'', ''feature/K-1-fix-the-login-page'']]\<rparr>))"
    by (simp add: GetIssue_def Git_Init_def CreateBranch_def Pull_def runClaude_def HasChanges_def
        clone_def git_exec_def ext_def mark_def NewGit_def demo_ops_def demo_cfg_def demo_state_def
        demo_world_def demo_issue_def Let_def bn ts)
  have run:
    "runClaude demo_ops (repoPath (NewGit demo_ops demo_cfg)) (demo_issue ''K-1'' ''Bug'' ''Open'') ((demo_state (demo_world\<lparr>d_status := []\<rparr>))\<lparr>calls :=
       [CProcessIssue ''K-1'',
        CGetIssue ''K-1'',
        CMkdirAll ''/work'',
        CGit [''config'', ''user.email'', ''automation@jira-automation''],
        CGit [''config'', ''user.name'', ''Jira Automation''],
        CGit [''checkout'', ''main''],
        CGit [''pull'', ''origin'', ''main''],
        CGit [''branch'', ''-a''],
        CGit [''checkout'', ''-b'', ''feature/K-1-fix-the-login-page'']]\<rparr>) =
     (None, ((demo_state (demo_world\<lparr>d_status := []\<rparr>))\<lparr>calls :=
       [CProcessIssue ''K-1'',
        CGetIssue ''K-1'',
        CMkdirAll ''/work'',
        CGit [''config'', ''user.email'', ''automation@jira-automation''],
        CGit [''config'', ''user.name'', ''Jira Automation''],
        CGit [''checkout'', ''main''],
        CGit [''pull'', ''origin'', ''main''],
        CGit [''branch'', ''-a''],
        CGit [''checkout'', ''-b'', ''feature/K-1-fix-the-login-page''],
        CClaude ''/work'']\<rparr>))"
    by (simp add: GetIssue_def Git_Init_def CreateBranch_def Pull_def runClaude_def HasChanges_def
        clone_def git_exec_def ext_def mark_def NewGit_def demo_ops_def demo_cfg_def demo_state_def
        demo_world_def demo_issue_def Let_def bn ts)
  have clean:
    "HasChanges demo_ops (NewGit demo_ops demo_cfg) ((demo_state (demo_world\<lparr>d_status := []\<rparr>))\<lparr>calls :=
       [CProcessIssue ''K-1'',
        CGetIssue ''K-1'',
        CMkdirAll ''/work'',
        CGit [''config'', ''user.email'', ''automation@jira-automation''],
        CGit [''config'', ''user.name'', ''Jira Automation''],
        CGit [''checkout'', ''main''],
        CGit [''pull'', ''origin'', ''main''],
        CGit [''branch'', ''-a''],
        CGit [''checkout'', ''-b'', ''feature/K-1-fix-the-login-page''],
        CClaude ''/work'']\<rparr>) =
     (False, ((demo_state (demo_world\<lparr>d_status := []\<rparr>))\<lparr>calls :=
       [CProcessIssue ''K-1'',
        CGetIssue ''K-1'',
        CMkdirAll ''/work'',
        CGit [''config'', ''user.email'', ''automation@jira-automation''],
        CGit [''config'', ''user.name'', ''Jira Automation''],
        CGit [''checkout'', ''main''],
        CGit [''pull'', ''origin'', ''main''],
        CGit [''branch'', ''-a''],
        CGit [''checkout'', ''-b'', ''feature/K-1-fix-the-login-page''],
        CClaude ''/work'',
        CGit [''status'', ''--porcelain'']]\<rparr>))"
    by (simp add: GetIssue_def Git_Init_def CreateBranch_def Pull_def runClaude_def HasChanges_def
        clone_def git_exec_def ext_def mark_def NewGit_def demo_ops_def demo_cfg_def demo_state_def
        demo_world_def demo_issue_def Let_def bn ts)
  from no_changes_completed [OF fetch valid "open" init br run clean] fetch valid "open" init br run clean
  show ?thesis by blast
qed

section \<open>Failures while the workspace is prepared\<close>

lemma CreateBranch_fails:
  "Pull ops g s = (Some e, s') \<Longrightarrow> CreateBranch ops g k title s = (Inl e, s')"
  by (simp add: CreateBranch_def)

lemma CreateBranch_Inl:
  "CreateBranch ops g k title s = (Inl e, s') \<Longrightarrow> Pull ops g s = (Some e, s')"
  by (auto simp: CreateBranch_def Let_def split: prod.splits option.splits if_splits)

text \<open>
  C8, as the code has it. A failure of \<open>Git.Init\<close> (the directory cannot be made, or the
  clone fails where the working tree is absent) ends the run as failed at the stage
  \<open>git\<close>; a failure of \<open>Git.Pull\<close> (the checkout of the default branch, or the pull)
  ends it as failed at the stage \<open>branch\<close>.
\<close>

theorem prepare_failure_stages:
  assumes fetch: "GetIssue ops cfg k (mark (CProcessIssue k) s) = (Inr issue, s1)"
    and valid: "IsValidType issue" and "open": "\<not> IsClosed issue"
  shows "(Git_Init ops (NewGit ops cfg) s1 = (Some e, s2) \<longrightarrow>
            ProcessIssue ops cfg k s =
              (\<lparr>IssueKey = k, Status_r = ''failed'', PRUrl_r = [], Error_r = ''git: '' @ e\<rparr>, s2)) \<and>
         (Git_Init ops (NewGit ops cfg) s1 = (None, t2) \<and>
          Pull ops (NewGit ops cfg) t2 = (Some e', t3) \<longrightarrow>
            ProcessIssue ops cfg k s =
              (\<lparr>IssueKey = k, Status_r = ''failed'', PRUrl_r = [], Error_r = ''branch: '' @ e'\<rparr>, t3))"
  using assms
  by (auto simp: ProcessIssue_steps Let_def fail_def CreateBranch_fails [where k = k and title = "Title issue"])

theorem prepare_failure_stages_witness:
  "GetIssue demo_ops demo_cfg ''K-1'' (mark (CProcessIssue ''K-1'') (demo_state (demo_world\<lparr>d_has_git := False, d_clone_fails := True\<rparr>))) =
     (Inr (demo_issue ''K-1'' ''Bug'' ''Open''), ((demo_state (demo_world\<lparr>d_has_git := False, d_clone_fails := True\<rparr>))\<lparr>calls :=
       [CProcessIssue ''K-1'',
        CGetIssue ''K-1'']\<rparr>)) \<and>
   IsValidType (demo_issue ''K-1'' ''Bug'' ''Open'') \<and>
   \<not> IsClosed (demo_issue ''K-1'' ''Bug'' ''Open'') \<and>
   Git_Init demo_ops (NewGit demo_ops demo_cfg) ((demo_state (demo_world\<lparr>d_has_git := False, d_clone_fails := True\<rparr>))\<lparr>calls :=
       [CProcessIssue ''K-1'',
        CGetIssue ''K-1'']\<rparr>) =
     (Some ''clone failed: fatal: repository not found'', ((demo_state (demo_world\<lparr>d_has_git := False, d_clone_fails := True\<rparr>))\<lparr>calls :=
       [CProcessIssue ''K-1'',
        CGetIssue ''K-1'',
        CMkdirAll ''/work'',
        CClone ''https://example.org/org/repo.git'' ''/work'']\<rparr>)) \<and>
   ProcessIssue demo_ops demo_cfg ''K-1'' (demo_state (demo_world\<lparr>d_has_git := False, d_clone_fails := True\<rparr>)) =
     (\<lparr>IssueKey = ''K-1'', Status_r = ''failed'', PRUrl_r = [], Error_r = ''git: clone failed: fatal: repository not found''\<rparr>,
      ((demo_state (demo_world\<lparr>d_has_git := False, d_clone_fails := True\<rparr>))\<lparr>calls :=
       [CProcessIssue ''K-1'',
        CGetIssue ''K-1'',
        CMkdirAll ''/work'',
        CClone ''https://example.org/org/repo.git'' ''/work'']\<rparr>)) \<and>
   GetIssue demo_ops demo_cfg ''K-1'' (mark (CProcessIssue ''K-1'') (demo_state (demo_world\<lparr>d_failing_git := [''pull'']\<rparr>))) =
     (Inr (demo_issue ''K-1'' ''Bug'' ''Open''), ((demo_state (demo_world\<lparr>d_failing_git := [''pull'']\<rparr>))\<lparr>calls :=
       [CProcessIssue ''K-1'',
        CGetIssue ''K-1'']\<rparr>)) \<and>
   Git_Init demo_ops (NewGit demo_ops demo_cfg) ((demo_state (demo_world\<lparr>d_failing_git := [''pull'']\<rparr>))\<lparr>calls :=
       [CProcessIssue ''K-1'',
        CGetIssue ''K-1'']\<rparr>) =
     (None, ((demo_state (demo_world\<lparr>d_failing_git := [''pull'']\<rparr>))\<lparr>calls :=
       [CProcessIssue ''K-1'',
        CGetIssue ''K-1'',
        CMkdirAll ''/work'',
        CGit [''config'', ''user.email'', ''automation@jira-automation''],
        CGit [''config'', ''user.name'', ''Jira Automation'']]\<rparr>)) \<and>
   Pull demo_ops (NewGit demo_ops demo_cfg) ((demo_state (demo_world\<lparr>d_failing_git := [''pull'']\<rparr>))\<lparr>calls :=
       [CProcessIssue ''K-1'',
        CGetIssue ''K-1'',
        CMkdirAll ''/work'',
        CGit [''config'', ''user.email'', ''automation@jira-automation''],
        CGit [''config'', ''user.name'', ''Jira Automation'']]\<rparr>) =
     (Some ''git pull origin main: fatal'', ((demo_state (demo_world\<lparr>d_failing_git := [''pull'']\<rparr>))\<lparr>calls :=
       [CProcessIssue ''K-1'',
        CGetIssue ''K-1'',
        CMkdirAll ''/work'',
        CGit [''config'', ''user.email'', ''automation@jira-automation''],
        CGit [''config'', ''user.name'', ''Jira Automation''],
        CGit [''checkout'', ''main''],
        CGit [''pull'', ''origin'', ''main'']]\<rparr>)) \<and>
   ProcessIssue demo_ops demo_cfg ''K-1'' (demo_state (demo_world\<lparr>d_failing_git := [''pull'']\<rparr>)) =
     (\<lparr>IssueKey = ''K-1'', Status_r = ''failed'', PRUrl_r = [], Error_r = ''branch: git pull origin main: fatal''\<rparr>,
      ((demo_state (demo_world\<lparr>d_failing_git := [''pull'']\<rparr>))\<lparr>calls :=
       [CProcessIssue ''K-1'',
        CGetIssue ''K-1'',
        CMkdirAll ''/work'',
        CGit [''config'', ''user.email'', ''automation@jira-automation''],
        CGit [''config'', ''user.name'', ''Jira Automation''],
        CGit [''checkout'', ''main''],
        CGit [''pull'', ''origin'', ''main'']]\<rparr>))"
proof -
  have fetchA:
    "GetIssue demo_ops demo_cfg ''K-1'' (mark (CProcessIssue ''K-1'') (demo_state (demo_world\<lparr>d_has_git := False, d_clone_fails := True\<rparr>))) =
     (Inr (demo_issue ''K-1'' ''Bug'' ''Open''), ((demo_state (demo_world\<lparr>d_has_git := False, d_clone_fails := True\<rparr>))\<lparr>calls :=
       [CProcessIssue ''K-1'',
        CGetIssue ''K-1'']\<rparr>))"
    by (simp add: GetIssue_def Git_Init_def CreateBranch_def Pull_def runClaude_def HasChanges_def
        clone_def git_exec_def ext_def mark_def NewGit_def demo_ops_def demo_cfg_def demo_state_def
        demo_world_def demo_issue_def Let_def)
  have fetchB:
    "GetIssue demo_ops demo_cfg ''K-1'' (mark (CProcessIssue ''K-1'') (demo_state (demo_world\<lparr>d_failing_git := [''pull'']\<rparr>))) =
     (Inr (demo_issue ''K-1'' ''Bug'' ''Open''), ((demo_state (demo_world\<lparr>d_failing_git := [''pull'']\<rparr>))\<lparr>calls :=
       [CProcessIssue ''K-1'',
        CGetIssue ''K-1'']\<rparr>))"
    by (simp add: GetIssue_def Git_Init_def CreateBranch_def Pull_def runClaude_def HasChanges_def
        clone_def git_exec_def ext_def mark_def NewGit_def demo_ops_def demo_cfg_def demo_state_def
        demo_world_def demo_issue_def Let_def)
  have valid:
    "IsValidType (demo_issue ''K-1'' ''Bug'' ''Open'')"
    by code_simp
  have "open":
    "\<not> IsClosed (demo_issue ''K-1'' ''Bug'' ''Open'')"
    by code_simp
  have initA:
    "Git_Init demo_ops (NewGit demo_ops demo_cfg) ((demo_state (demo_world\<lparr>d_has_git := False, d_clone_fails := True\<rparr>))\<lparr>calls :=
       [CProcessIssue ''K-1'',
        CGetIssue ''K-1'']\<rparr>) =
     (Some ''clone failed: fatal: repository not found'', ((demo_state (demo_world\<lparr>d_has_git := False, d_clone_fails := True\<rparr>))\<lparr>calls :=
       [CProcessIssue ''K-1'',
        CGetIssue ''K-1'',
        CMkdirAll ''/work'',
        CClone ''https://example.org/org/repo.git'' ''/work'']\<rparr>))"
    by (simp add: GetIssue_def Git_Init_def CreateBranch_def Pull_def runClaude_def HasChanges_def
        clone_def git_exec_def ext_def mark_def NewGit_def demo_ops_def demo_cfg_def demo_state_def
        demo_world_def demo_issue_def Let_def)
  have initB:
    "Git_Init demo_ops (NewGit demo_ops demo_cfg) ((demo_state (demo_world\<lparr>d_failing_git := [''pull'']\<rparr>))\<lparr>calls :=
       [CProcessIssue ''K-1'',
        CGetIssue ''K-1'']\<rparr>) =
     (None, ((demo_state (demo_world\<lparr>d_failing_git := [''pull'']\<rparr>))\<lparr>calls :=
       [CProcessIssue ''K-1'',
        CGetIssue ''K-1'',
        CMkdirAll ''/work'',
        CGit [''config'', ''user.email'', ''automation@jira-automation''],
        CGit [''config'', ''user.name'', ''Jira Automation'']]\<rparr>))"
    by (simp add: GetIssue_def Git_Init_def CreateBranch_def Pull_def runClaude_def HasChanges_def
        clone_def git_exec_def ext_def mark_def NewGit_def demo_ops_def demo_cfg_def demo_state_def
        demo_world_def demo_issue_def Let_def)
  have pullB:
    "Pull demo_ops (NewGit demo_ops demo_cfg) ((demo_state (demo_world\<lparr>d_failing_git := [''pull'']\<rparr>))\<lparr>calls :=
       [CProcessIssue ''K-1'',
        CGetIssue ''K-1'',
        CMkdirAll ''/work'',
        CGit [''config'', ''user.email'', ''automation@jira-automation''],
        CGit [''config'', ''user.name'', ''Jira Automation'']]\<rparr>) =
     (Some ''git pull origin main: fatal'', ((demo_state (demo_world\<lparr>d_failing_git := [''pull'']\<rparr>))\<lparr>calls :=
       [CProcessIssue ''K-1'',
        CGetIssue ''K-1'',
        CMkdirAll ''/work'',
        CGit [''config'', ''user.email'', ''automation@jira-automation''],
        CGit [''config'', ''user.name'', ''Jira Automation''],
        CGit [''checkout'', ''main''],
        CGit [''pull'', ''origin'', ''main'']]\<rparr>))"
    by (simp add: GetIssue_def Git_Init_def CreateBranch_def Pull_def runClaude_def HasChanges_def
        clone_def git_exec_def ext_def mark_def NewGit_def demo_ops_def demo_cfg_def demo_state_def
        demo_world_def demo_issue_def Let_def)
  from prepare_failure_stages [OF fetchA valid "open"] initA
  have A: "ProcessIssue demo_ops demo_cfg ''K-1'' (demo_state (demo_world\<lparr>d_has_git := False, d_clone_fails := True\<rparr>)) =
     (\<lparr>IssueKey = ''K-1'', Status_r = ''failed'', PRUrl_r = [], Error_r = ''git: clone failed: fatal: repository not found''\<rparr>,
      ((demo_state (demo_world\<lparr>d_has_git := False, d_clone_fails := True\<rparr>))\<lparr>calls :=
       [CProcessIssue ''K-1'',
        CGetIssue ''K-1'',
        CMkdirAll ''/work'',
        CClone ''https://example.org/org/repo.git'' ''/work'']\<rparr>))"
    by simp
  from prepare_failure_stages [OF fetchB valid "open"] initB pullB
  have B: "ProcessIssue demo_ops demo_cfg ''K-1'' (demo_state (demo_world\<lparr>d_failing_git := [''pull'']\<rparr>)) =
     (\<lparr>IssueKey = ''K-1'', Status_r = ''failed'', PRUrl_r = [], Error_r = ''branch: git pull origin main: fatal''\<rparr>,
      ((demo_state (demo_world\<lparr>d_failing_git := [''pull'']\<rparr>))\<lparr>calls :=
       [CProcessIssue ''K-1'',
        CGetIssue ''K-1'',
        CMkdirAll ''/work'',
        CGit [''config'', ''user.email'', ''automation@jira-automation''],
        CGit [''config'', ''user.name'', ''Jira Automation''],
        CGit [''checkout'', ''main''],
        CGit [''pull'', ''origin'', ''main'']]\<rparr>))"
    by simp
  from A B fetchA fetchB valid "open" initA initB pullB show ?thesis
    by blast
qed

text \<open>
  C8 as stated fails where the clone fails: the working tree is absent, \<open>Git.Init\<close> returns
  the error of the clone, and the run is recorded as failed at the stage \<open>git\<close>, not
  \<open>branch\<close>.
\<close>

theorem prepare_failure_counterexample:
  "fst (Git_Init demo_ops (NewGit demo_ops demo_cfg)
      (snd (GetIssue demo_ops demo_cfg ''K-1''
             (mark (CProcessIssue ''K-1'') (demo_state (demo_world\<lparr>d_has_git := False, d_clone_fails := True\<rparr>)))))) =
     Some ''clone failed: fatal: repository not found'' \<and>
   fst (ProcessIssue demo_ops demo_cfg ''K-1'' (demo_state (demo_world\<lparr>d_has_git := False, d_clone_fails := True\<rparr>))) =
     \<lparr>IssueKey = ''K-1'', Status_r = ''failed'', PRUrl_r = [], Error_r = ''git: clone failed: fatal: repository not found''\<rparr> \<and>
   \<not> prefix ''branch''
     (Error_r (fst (ProcessIssue demo_ops demo_cfg ''K-1'' (demo_state (demo_world\<lparr>d_has_git := False, d_clone_fails := True\<rparr>)))))"
  by code_simp

section \<open>The branch name\<close>

lemma hyphen_not_alnum: "\<not> is_alnum CHR ''-''"
  by (simp add: is_alnum_def is_lower_def is_upper_def is_digit_def byte_of_def)

lemma squeeze_other: "c \<noteq> CHR ''-'' \<Longrightarrow> squeeze (c # cs) = c # squeeze cs"
  by (cases cs) simp_all

lemma squeeze_run:
  "squeeze (CHR ''-'' # hyphenate cs) =
   CHR ''-'' # squeeze (hyphenate (dropWhile (\<lambda>d. \<not> is_alnum d) cs))"
proof (induction cs)
  case Nil
  then show ?case by (simp add: hyphenate_def)
next
  case (Cons d ds)
  show ?case
  proof (cases "is_alnum d")
    case True
    then have "d \<noteq> CHR ''-''" using hyphen_not_alnum by auto
    with True show ?thesis by (simp add: hyphenate_def)
  next
    case False
    with Cons.IH show ?thesis by (simp add: hyphenate_def)
  qed
qed

lemma ReplaceRuns_squeeze: "ReplaceRuns s = squeeze (hyphenate s)"
proof (induction s rule: ReplaceRuns.induct)
  case 1
  then show ?case by (simp add: hyphenate_def)
next
  case (2 c cs)
  show ?case
  proof (cases "is_alnum c")
    case True
    then have ne: "c \<noteq> CHR ''-''" using hyphen_not_alnum by auto
    have "squeeze (hyphenate (c # cs)) = c # squeeze (hyphenate cs)"
      using True squeeze_other [OF ne] by (simp add: hyphenate_def)
    with True 2 show ?thesis by simp
  next
    case False
    have "squeeze (hyphenate (c # cs)) = squeeze (CHR ''-'' # hyphenate cs)"
      using False by (simp add: hyphenate_def)
    with False 2 squeeze_run [of cs] show ?thesis by simp
  qed
qed

lemma slug_spec: "slug title = spec_slug title"
  by (simp add: slug_def spec_slug_def Let_def ReplaceRuns_squeeze)

lemma CreateBranch_name:
  "CreateBranch ops g k title s = (Inr b, s') \<Longrightarrow> b = branch_name k title"
  by (auto simp: CreateBranch_def Let_def split: prod.splits option.splits if_splits)

text \<open>
  C7. The branch name that \<open>CreateBranch\<close> computes and returns is \<open>feature/\<close>, the key,
  a hyphen and the slug of the title: the title in lower case, with every run of
  characters that are not letters or digits collapsed to one hyphen, the hyphens at both
  ends trimmed, cut to at most 40 characters.
\<close>

theorem branch_name_is_slug:
  assumes "CreateBranch ops g k title s = (Inr b, s')"
  shows "b = ''feature/'' @ k @ ''-'' @ spec_slug title \<and> length (spec_slug title) \<le> 40"
  using CreateBranch_name [OF assms]
  by (simp add: branch_name_def slug_spec spec_slug_def)

theorem branch_name_is_slug_witness:
  "CreateBranch demo_ops (NewGit demo_ops demo_cfg) ''K-7'' ''Fix: the  LOGIN -- page!!'' (demo_state demo_world) =
     (Inr ''feature/K-7-fix-the-login-page'', ((demo_state demo_world)\<lparr>calls :=
       [CGit [''checkout'', ''main''],
        CGit [''pull'', ''origin'', ''main''],
        CGit [''branch'', ''-a''],
        CGit [''checkout'', ''-b'', ''feature/K-7-fix-the-login-page'']]\<rparr>)) \<and>
   ''feature/K-7-fix-the-login-page'' = ''feature/'' @ ''K-7'' @ ''-'' @ spec_slug ''Fix: the  LOGIN -- page!!'' \<and>
   length (spec_slug ''Fix: the  LOGIN -- page!!'') \<le> 40"
proof -
  have bn: "branch_name ''K-7'' ''Fix: the  LOGIN -- page!!'' = ''feature/K-7-fix-the-login-page''"
    by code_simp
  have ts: "TrimSpace [] = []"
    by code_simp
  have h:
    "CreateBranch demo_ops (NewGit demo_ops demo_cfg) ''K-7'' ''Fix: the  LOGIN -- page!!'' (demo_state demo_world) =
     (Inr ''feature/K-7-fix-the-login-page'', ((demo_state demo_world)\<lparr>calls :=
       [CGit [''checkout'', ''main''],
        CGit [''pull'', ''origin'', ''main''],
        CGit [''branch'', ''-a''],
        CGit [''checkout'', ''-b'', ''feature/K-7-fix-the-login-page'']]\<rparr>))"
    by (simp add: CreateBranch_def Pull_def git_exec_def ext_def NewGit_def demo_ops_def demo_cfg_def
        demo_state_def demo_world_def Let_def bn ts)
  from branch_name_is_slug [OF h] h show ?thesis
    by blast
qed

section \<open>The files\<close>

lemma keeps_refl: "keeps_files s s"
  by (simp add: keeps_files_def)

lemma keeps_trans: "keeps_files s s' \<Longrightarrow> keeps_files s' s'' \<Longrightarrow> keeps_files s s''"
  by (simp add: keeps_files_def)

lemma keeps_mark: "keeps_files s (mark c s)"
  by (simp add: keeps_files_def mark_def)

lemma keeps_ext: "keeps_files s (snd (ext f c s))"
  by (simp add: keeps_files_def ext_def split: prod.splits)

lemma keeps_bind:
  assumes "keeps_files s (snd (f s))" and "\<And>r s'. keeps_files s' (snd (k r s'))"
  shows "keeps_files s (snd (case f s of (r, s') \<Rightarrow> k r s'))"
proof (cases "f s")
  case (Pair r s')
  with assms(1) have "keeps_files s s'" by simp
  from keeps_trans [OF this assms(2) [of s' r]] Pair show ?thesis by simp
qed

lemma keeps_git_exec: "keeps_files s (snd (git_exec ops g args s))"
  unfolding git_exec_def
  by (rule keeps_bind) (auto intro: keeps_ext keeps_refl split: sum.split)

lemma keeps_clone: "keeps_files s (snd (clone ops g s))"
  unfolding clone_def
  by (rule keeps_bind) (auto intro: keeps_ext keeps_refl split: sum.split)

lemma keeps_Git_Init: "keeps_files s (snd (Git_Init ops g s))"
  unfolding Git_Init_def
  by (auto intro!: keeps_bind keeps_ext keeps_refl keeps_git_exec keeps_clone
        split: option.split sum.split)

lemma keeps_Pull: "keeps_files s (snd (Pull ops g s))"
  unfolding Pull_def
  by (auto intro!: keeps_bind keeps_refl keeps_git_exec split: option.split sum.split)

lemma keeps_CreateBranch: "keeps_files s (snd (CreateBranch ops g k title s))"
  unfolding CreateBranch_def Let_def
  by (auto intro!: keeps_bind keeps_refl keeps_git_exec keeps_Pull split: option.split sum.split)

lemma keeps_runClaude: "keeps_files s (snd (runClaude ops path issue s))"
  unfolding runClaude_def
  by (auto intro!: keeps_bind keeps_refl keeps_ext split: claude_outcome.split)

lemma keeps_HasChanges: "keeps_files s (snd (HasChanges ops g s))"
  unfolding HasChanges_def
  by (auto intro!: keeps_bind keeps_refl keeps_git_exec)

lemma keeps_CommitAndPush: "keeps_files s (snd (CommitAndPush ops g br msg s))"
  unfolding CommitAndPush_def
  by (auto intro!: keeps_bind keeps_refl keeps_git_exec split: option.split sum.split)

lemma keeps_publish: "keeps_files s (snd (publish ops cfg g issue b result s))"
  unfolding publish_def Let_def CreatePR_def AddComment_def Transition_def
  by (auto intro!: keeps_bind keeps_refl keeps_ext keeps_HasChanges keeps_CommitAndPush
        split: option.split sum.split bool.split)

lemma keeps_ProcessIssue: "keeps_files s (snd (ProcessIssue ops cfg k s))"
proof -
  have "keeps_files (mark (CProcessIssue k) s) (snd (ProcessIssue ops cfg k s))"
    unfolding ProcessIssue_steps Let_def GetIssue_def
    by (auto intro!: keeps_bind keeps_refl keeps_ext keeps_publish keeps_Git_Init
          keeps_CreateBranch keeps_runClaude split: option.split sum.split)
  from keeps_trans [OF keeps_mark this] show ?thesis .
qed

lemma pipeline_call_not_save: "is_prepare_call c \<or> is_publish_call c \<Longrightarrow> \<not> is_save c"
  by (cases c) auto

lemma ProcessIssue_no_save:
  "list_all (\<lambda>c. \<not> is_save c) (new_calls s (snd (ProcessIssue ops cfg k s)))"
proof -
  have "grows (\<lambda>c. \<not> is_save c) s (mark (CProcessIssue k) s)"
    by (rule grows_mark) simp
  moreover have "grows (\<lambda>c. \<not> is_save c) (mark (CProcessIssue k) s)
      (snd (ProcessIssue ops cfg k s))"
    by (rule grows_weaken [OF grows_ProcessIssue]) (rule pipeline_call_not_save)
  ultimately have "grows (\<lambda>c. \<not> is_save c) s (snd (ProcessIssue ops cfg k s))"
    by (rule grows_trans)
  then show ?thesis by (rule grows_new_calls)
qed

text \<open>What \<open>saveProcessed\<close> does, by the answer of the file system.\<close>

lemma saveProcessed_step:
  assumes "ext_write_ledger ops (world s) = (out, w')"
  shows "saveProcessed ops s =
     s\<lparr>world := w', calls := calls s @ [CSaveProcessed (processed s)],
       processed_file :=
         (case out of
            Written \<Rightarrow> Some (ext_json ops (processed s))
          | NotWritten \<Rightarrow> processed_file s
          | Truncated \<Rightarrow> None)\<rparr>"
  using assms by (cases out) (simp_all add: saveProcessed_def ext_def)

lemma saveProcessed_calls:
  "calls (saveProcessed ops s) = calls s @ [CSaveProcessed (processed s)]"
  by (cases "ext_write_ledger ops (world s)") (simp add: saveProcessed_step)

lemma saveProcessed_processed: "processed (saveProcessed ops s) = processed s"
  by (cases "ext_write_ledger ops (world s)") (simp add: saveProcessed_step)

section \<open>One tick of the poller\<close>

lemma pipeline_call_not_entry: "is_prepare_call c \<or> is_publish_call c \<Longrightarrow> \<not> is_entry c"
  by (cases c) auto

lemma entry_keys_append: "entry_keys (xs @ ys) = entry_keys xs @ entry_keys ys"
  by (induction xs rule: entry_keys.induct) auto

lemma entry_keys_none: "list_all (\<lambda>c. \<not> is_entry c) cs \<Longrightarrow> entry_keys cs = []"
  by (induction cs rule: entry_keys.induct) auto

lemma entry_keys_set: "k \<in> set (entry_keys cs) \<longleftrightarrow> CProcessIssue k \<in> set cs"
  by (induction cs rule: entry_keys.induct) auto

lemma new_calls_trans:
  assumes "grows P s s'" and "grows Q s' s''"
  shows "new_calls s s'' = new_calls s s' @ new_calls s' s''"
  using assms by (auto simp: grows_def new_calls_def)

lemma new_calls_self: "new_calls s s = []"
  by (simp add: new_calls_def)

lemma new_calls_mark: "new_calls s (mark c s) = [c]"
  by (simp add: new_calls_def mark_def)

lemma new_calls_ext: "new_calls s (snd (ext f c s)) = [c]"
  by (simp add: new_calls_def calls_ext)

lemma processed_ext: "processed (snd (ext f c s)) = processed s"
  by (simp add: ext_def split: prod.splits)

lemma entry_keys_quiet:
  "list_all (\<lambda>c. \<not> is_entry c \<and> \<not> is_save c) cs \<Longrightarrow> entry_keys cs = []"
  by (rule entry_keys_none) (simp add: list_all_iff)

text \<open>
  One item of a tick: \<open>ProcessIssue\<close>, the clock, the record in the map, the write of the
  whole map.
\<close>

lemma poll_item_step:
  assumes run: "ProcessIssue ops cfg (Key issue) s = (r, s3)"
    and clock: "ext_now ops (world s3) = (t, w4)"
    and wr: "ext_write_ledger ops w4 = (out, w5)"
  shows "poll_item ops cfg issue s =
     (let m = (processed s)(Key issue \<mapsto>
                \<lparr>ProcessedAt = t, Status_p = Status_r r, PRUrl_p = PRUrl_r r, Error_p = Error_r r\<rparr>)
      in s3\<lparr>world := w5, calls := calls s3 @ [CNow, CSaveProcessed m], processed := m,
           processed_file :=
             (case out of
                Written \<Rightarrow> Some (ext_json ops m)
              | NotWritten \<Rightarrow> processed_file s
              | Truncated \<Rightarrow> None)\<rparr>)"
proof -
  have "keeps_files s s3"
    using keeps_ProcessIssue [of s ops cfg "Key issue"] run by simp
  then have same: "processed s3 = processed s" "processed_file s3 = processed_file s"
    by (simp_all add: keeps_files_def)
  let ?m = "(processed s)(Key issue \<mapsto>
      \<lparr>ProcessedAt = t, Status_p = Status_r r, PRUrl_p = PRUrl_r r, Error_p = Error_r r\<rparr>)"
  let ?s4 = "s3\<lparr>world := w4, calls := calls s3 @ [CNow], processed := ?m\<rparr>"
  have "poll_item ops cfg issue s = saveProcessed ops ?s4"
    using run clock by (simp add: poll_item_def ext_def same)
  moreover have "ext_write_ledger ops (world ?s4) = (out, w5)"
    using wr by simp
  ultimately show ?thesis
    by (cases out) (simp_all add: saveProcessed_step Let_def same)
qed

lemma poll_item_calls:
  "\<exists>cs m. calls (poll_item ops cfg issue s) =
          calls s @ [CProcessIssue (Key issue)] @ cs @ [CNow, CSaveProcessed m] \<and>
        list_all (\<lambda>c. \<not> is_entry c \<and> \<not> is_save c) cs"
proof -
  obtain r s3 where run: "ProcessIssue ops cfg (Key issue) s = (r, s3)"
    by (cases "ProcessIssue ops cfg (Key issue) s")
  obtain t w4 where clock: "ext_now ops (world s3) = (t, w4)"
    by (cases "ext_now ops (world s3)")
  obtain out w5 where wr: "ext_write_ledger ops w4 = (out, w5)"
    by (cases "ext_write_ledger ops w4")
  have "grows (\<lambda>c. \<not> is_entry c \<and> \<not> is_save c) (mark (CProcessIssue (Key issue)) s) s3"
    using grows_weaken [OF grows_ProcessIssue [of "Key issue" s ops cfg]] run
    by (simp add: pipeline_call_not_entry pipeline_call_not_save)
  then obtain cs where cs: "calls s3 = calls s @ [CProcessIssue (Key issue)] @ cs"
      and quiet: "list_all (\<lambda>c. \<not> is_entry c \<and> \<not> is_save c) cs"
    by (auto simp: grows_def mark_def)
  from poll_item_step [OF run clock wr] cs quiet show ?thesis
    by (auto simp: Let_def)
qed

lemma poll_item_grows: "grows (\<lambda>c. True) s (poll_item ops cfg issue s)"
  using poll_item_calls [of ops cfg issue s] by (auto simp: grows_def list_all_iff)

lemma poll_item_keys: "entry_keys (new_calls s (poll_item ops cfg issue s)) = [Key issue]"
proof -
  from poll_item_calls [of ops cfg issue s] obtain cs m where
    "calls (poll_item ops cfg issue s) =
       calls s @ [CProcessIssue (Key issue)] @ cs @ [CNow, CSaveProcessed m]"
    and "list_all (\<lambda>c. \<not> is_entry c \<and> \<not> is_save c) cs"
    by blast
  then show ?thesis
    by (simp add: new_calls_def entry_keys_append entry_keys_quiet)
qed

lemma poll_loop_grows: "grows (\<lambda>c. True) s (poll_loop ops cfg issues s)"
proof (induction issues arbitrary: s)
  case Nil
  show ?case by (simp add: grows_refl)
next
  case (Cons i rest)
  from grows_trans [OF poll_item_grows Cons.IH] show ?case by simp
qed

lemma poll_loop_keys: "entry_keys (new_calls s (poll_loop ops cfg issues s)) = map Key issues"
proof (induction issues arbitrary: s)
  case Nil
  show ?case by (simp add: new_calls_self)
next
  case (Cons i rest)
  have "new_calls s (poll_loop ops cfg (i # rest) s) =
        new_calls s (poll_item ops cfg i s) @
        new_calls (poll_item ops cfg i s) (poll_loop ops cfg rest (poll_item ops cfg i s))"
    using new_calls_trans [OF poll_item_grows poll_loop_grows] by simp
  then show ?case
    by (simp add: entry_keys_append poll_item_keys Cons.IH)
qed

lemma poll_keys_fetched:
  assumes "GetAssignedIssues ops cfg s = (Inr issues, s1)"
  shows "entry_keys (new_calls s (poll ops cfg s)) =
         filter (\<lambda>k. processed s k = None) (map Key issues)"
proof -
  let ?new = "filter (\<lambda>issue. processed s1 (Key issue) = None) issues"
  have s1: "s1 = snd (ext (\<lambda>w. ext_GetAssignedIssues ops w cfg) CGetAssignedIssues s)"
    using assms by (simp add: GetAssignedIssues_def)
  have same: "processed s1 = processed s"
    unfolding s1 by (rule processed_ext)
  have first: "new_calls s s1 = [CGetAssignedIssues]"
    unfolding s1 by (rule new_calls_ext)
  have g1: "grows (\<lambda>c. True) s s1"
    unfolding s1 by (rule grows_ext) simp
  have run: "poll ops cfg s = poll_loop ops cfg ?new s1"
    using assms by (cases ?new) (simp_all add: poll_def Let_def)
  have "new_calls s (poll ops cfg s) = new_calls s s1 @ new_calls s1 (poll_loop ops cfg ?new s1)"
    unfolding run by (rule new_calls_trans [OF g1 poll_loop_grows])
  then have "entry_keys (new_calls s (poll ops cfg s)) = map Key ?new"
    by (simp add: first entry_keys_append poll_loop_keys)
  then show ?thesis
    by (simp add: same filter_map comp_def)
qed

lemma poll_keys_failed:
  assumes "GetAssignedIssues ops cfg s = (Inl err, s1)"
  shows "entry_keys (new_calls s (poll ops cfg s)) = []"
proof -
  have "poll ops cfg s = snd (ext (\<lambda>w. ext_GetAssignedIssues ops w cfg) CGetAssignedIssues s)"
    using assms by (simp add: poll_def GetAssignedIssues_def)
  then show ?thesis by (simp add: new_calls_ext)
qed

text \<open>
  C1. A key that is in the ledger (the map \<open>processed\<close>) when a tick starts is not
  processed in that tick: \<open>poll\<close> does not enter \<open>ProcessIssue\<close> on it. (The keys it does
  enter are the fetched keys that are absent from the ledger, in the fetched order:
  \<open>poll_keys_fetched\<close>.)
\<close>

theorem poll_skips_ledger:
  assumes "k \<in> dom (processed s)"
  shows "CProcessIssue k \<notin> set (new_calls s (poll ops cfg s))"
proof -
  obtain r s1 where fetch: "GetAssignedIssues ops cfg s = (r, s1)"
    by (cases "GetAssignedIssues ops cfg s")
  have "k \<notin> set (entry_keys (new_calls s (poll ops cfg s)))"
  proof (cases r)
    case (Inl err)
    with fetch poll_keys_failed [of ops cfg s err s1] show ?thesis by simp
  next
    case (Inr issues)
    with fetch poll_keys_fetched [of ops cfg s issues s1] assms show ?thesis by auto
  qed
  then show ?thesis by (simp add: entry_keys_set)
qed

theorem poll_skips_ledger_witness:
  "''K-1'' \<in> dom (processed ((demo_state demo_world)\<lparr>processed :=
       [''K-1'' \<mapsto> \<lparr>ProcessedAt = ''2024-01-14T10:30:00Z'', Status_p = ''failed'',
                     PRUrl_p = [], Error_p = ''claude: timeout after 10 minutes''\<rparr>]\<rparr>)) \<and>
   CProcessIssue ''K-1'' \<notin> set (new_calls
     ((demo_state demo_world)\<lparr>processed :=
       [''K-1'' \<mapsto> \<lparr>ProcessedAt = ''2024-01-14T10:30:00Z'', Status_p = ''failed'',
                     PRUrl_p = [], Error_p = ''claude: timeout after 10 minutes''\<rparr>]\<rparr>)
     (poll demo_ops demo_cfg ((demo_state demo_world)\<lparr>processed :=
       [''K-1'' \<mapsto> \<lparr>ProcessedAt = ''2024-01-14T10:30:00Z'', Status_p = ''failed'',
                     PRUrl_p = [], Error_p = ''claude: timeout after 10 minutes''\<rparr>]\<rparr>)))"
proof -
  have h: "''K-1'' \<in> dom (processed ((demo_state demo_world)\<lparr>processed :=
       [''K-1'' \<mapsto> \<lparr>ProcessedAt = ''2024-01-14T10:30:00Z'', Status_p = ''failed'',
                     PRUrl_p = [], Error_p = ''claude: timeout after 10 minutes''\<rparr>]\<rparr>))"
    by simp
  from poll_skips_ledger [OF h] h show ?thesis by blast
qed

section \<open>The ledger\<close>

lemma poll_loop_append:
  "poll_loop ops cfg (xs @ ys) s = poll_loop ops cfg ys (poll_loop ops cfg xs s)"
  by (induction xs arbitrary: s) simp_all

lemma main_trigger_cases:
  "snd (main_trigger ops args s) = new_process s \<or>
   (\<exists>cfg'. snd (main_trigger ops args s) = snd (ProcessIssue ops cfg' (args ! 2) (new_process s)))"
  unfolding main_trigger_def Let_def
  by (auto simp: split_beta split: sum.split)

lemma main_trigger_keeps:
  "processed_file (snd (main_trigger ops args s)) = processed_file s \<and>
   list_all (\<lambda>c. \<not> is_save c) (new_calls s (snd (main_trigger ops args s)))"
proof -
  have same: "calls (new_process s) = calls s" "processed_file (new_process s) = processed_file s"
    by (simp_all add: new_process_def)
  have nc: "\<And>s'. new_calls (new_process s) s' = new_calls s s'"
    by (simp add: new_calls_def same)
  from main_trigger_cases [of ops args s] show ?thesis
  proof (elim disjE exE)
    assume "snd (main_trigger ops args s) = new_process s"
    then show ?thesis by (simp add: same new_calls_def)
  next
    fix cfg'
    assume eq: "snd (main_trigger ops args s) = snd (ProcessIssue ops cfg' (args ! 2) (new_process s))"
    have "keeps_files (new_process s) (snd (ProcessIssue ops cfg' (args ! 2) (new_process s)))"
      by (rule keeps_ProcessIssue)
    then have "processed_file (snd (main_trigger ops args s)) = processed_file s"
      by (simp add: keeps_files_def same eq)
    moreover have "list_all (\<lambda>c. \<not> is_save c) (new_calls s (snd (main_trigger ops args s)))"
      using ProcessIssue_no_save [of "new_process s" ops cfg' "args ! 2"] by (simp add: nc eq)
    ultimately show ?thesis by simp
  qed
qed

lemma main_trigger_runs:
  assumes "ext_ConfigExists ops (world s)" and "ext_LoadConfig ops (world s) = Inr cfg"
  shows "snd (main_trigger ops [a0, a1, k] s) = snd (ProcessIssue ops cfg k (new_process s)) \<and>
         fst (main_trigger ops [a0, a1, k] s) =
           (if Status_r (fst (ProcessIssue ops cfg k (new_process s))) \<noteq> ''completed'' then 1 else 0)"
  using assms by (simp add: main_trigger_def Let_def new_process_def split_beta)

lemma poll_item_dom: "dom (processed s) \<subseteq> dom (processed (poll_item ops cfg issue s)) \<and>
   Key issue \<in> dom (processed (poll_item ops cfg issue s))"
proof -
  obtain r s3 where run: "ProcessIssue ops cfg (Key issue) s = (r, s3)"
    by (cases "ProcessIssue ops cfg (Key issue) s")
  obtain t w4 where clock: "ext_now ops (world s3) = (t, w4)"
    by (cases "ext_now ops (world s3)")
  obtain out w5 where wr: "ext_write_ledger ops w4 = (out, w5)"
    by (cases "ext_write_ledger ops w4")
  show ?thesis
    unfolding poll_item_step [OF run clock wr] Let_def by auto
qed

lemma poll_loop_dom: "dom (processed s) \<subseteq> dom (processed (poll_loop ops cfg issues s))"
proof (induction issues arbitrary: s)
  case Nil
  show ?case by simp
next
  case (Cons i rest)
  from poll_item_dom [of s ops cfg i] Cons.IH [of "poll_item ops cfg i s"]
  show ?case by (simp del: dom_eq_empty_conv) blast
qed

text \<open>A tick as the items before an item, the item, and the items behind it.\<close>

lemma poll_split:
  assumes fetch: "GetAssignedIssues ops cfg s = (Inr issues, s1)"
    and items: "filter (\<lambda>i. processed s (Key i) = None) issues = pre @ issue # post"
  shows "poll ops cfg s =
     poll_loop ops cfg post (poll_item ops cfg issue (poll_loop ops cfg pre s1))"
    and "new_calls s s1 = [CGetAssignedIssues]"
    and "grows (\<lambda>c. True) s s1"
proof -
  have s1: "s1 = snd (ext (\<lambda>w. ext_GetAssignedIssues ops w cfg) CGetAssignedIssues s)"
    using fetch by (simp add: GetAssignedIssues_def)
  have same: "processed s1 = processed s"
    unfolding s1 by (rule processed_ext)
  show "new_calls s s1 = [CGetAssignedIssues]"
    unfolding s1 by (rule new_calls_ext)
  show "grows (\<lambda>c. True) s s1"
    unfolding s1 by (rule grows_ext) simp
  have "poll ops cfg s = poll_loop ops cfg (pre @ issue # post) s1"
    using fetch items by (simp add: poll_def Let_def same)
  then show "poll ops cfg s =
     poll_loop ops cfg post (poll_item ops cfg issue (poll_loop ops cfg pre s1))"
    by (simp add: poll_loop_append)
qed

text \<open>
  C2, as the code has it. Let a tick fetch the issues and let \<open>pre @ issue # post\<close> be those
  of them that the ledger does not hold. Then \<open>ProcessIssue\<close> returns for \<open>issue\<close> with the
  status \<open>failed\<close> or \<open>completed\<close>, and the calls of the tick are: calls in which
  \<open>ProcessIssue\<close> is entered on the keys of \<open>pre\<close>; the entry on the key of \<open>issue\<close>; the
  calls of its run, none of them an entry or a write of the ledger; the clock; the write of
  the ledger \<open>m\<close>, which is the ledger as it was before the item with the record of the item
  (that time, the status, the address and the error of the result) under its key; and only
  then calls in which \<open>ProcessIssue\<close> is entered on the keys of \<open>post\<close>. The rest of the
  tick starts in the state in which \<open>m\<close> is the ledger in memory and the ledger file is what
  the write has made of it: the encoding of \<open>m\<close> when the write has succeeded, the file as
  it was when nothing was written, no readable file when the write broke off. The error of
  the write is ignored, so the file holds the record only if the write succeeds; the key
  stays in the ledger in memory to the end of the tick.

  The command \<open>trigger\<close> runs \<open>ProcessIssue\<close> on its argument in a process of its own and
  returns the exit code of the status; it records nothing in a ledger and makes no write of
  the ledger: the ledger file is left as it was.
\<close>

theorem poll_records_each_item:
  assumes fetch: "GetAssignedIssues ops cfg s = (Inr issues, s1)"
    and items: "filter (\<lambda>i. processed s (Key i) = None) issues = pre @ issue # post"
    and run: "ProcessIssue ops cfg (Key issue) (poll_loop ops cfg pre s1) = (r, s3)"
    and clock: "ext_now ops (world s3) = (t, w4)"
    and wr: "ext_write_ledger ops w4 = (out, w5)"
    and m: "m = (processed (poll_loop ops cfg pre s1))(Key issue \<mapsto>
              \<lparr>ProcessedAt = t, Status_p = Status_r r, PRUrl_p = PRUrl_r r, Error_p = Error_r r\<rparr>)"
  shows "(Status_r r = ''failed'' \<or> Status_r r = ''completed'') \<and>
    (\<exists>before cs after.
       new_calls s (poll ops cfg s) =
         before @ [CProcessIssue (Key issue)] @ cs @ [CNow, CSaveProcessed m] @ after \<and>
       entry_keys before = map Key pre \<and>
       list_all (\<lambda>c. \<not> is_entry c \<and> \<not> is_save c) cs \<and>
       entry_keys after = map Key post) \<and>
    poll ops cfg s =
      poll_loop ops cfg post
        (s3\<lparr>world := w5, calls := calls s3 @ [CNow, CSaveProcessed m], processed := m,
            processed_file :=
              (case out of
                 Written \<Rightarrow> Some (ext_json ops m)
               | NotWritten \<Rightarrow> processed_file (poll_loop ops cfg pre s1)
               | Truncated \<Rightarrow> None)\<rparr>) \<and>
    Key issue \<in> dom (processed (poll ops cfg s)) \<and>
    processed (snd (main_trigger ops args u)) = Map.empty \<and>
    processed_file (snd (main_trigger ops args u)) = processed_file u \<and>
    list_all (\<lambda>c. \<not> is_save c) (new_calls u (snd (main_trigger ops args u))) \<and>
    (ext_ConfigExists ops (world u) \<and> ext_LoadConfig ops (world u) = Inr cfg' \<longrightarrow>
       main_trigger ops [a0, a1, k] u =
         (if Status_r (fst (ProcessIssue ops cfg' k (new_process u))) \<noteq> ''completed''
          then 1 else 0,
          snd (ProcessIssue ops cfg' k (new_process u))))"
proof -
  let ?s2 = "poll_loop ops cfg pre s1"
  let ?s4 = "s3\<lparr>world := w5, calls := calls s3 @ [CNow, CSaveProcessed m], processed := m,
            processed_file :=
              (case out of
                 Written \<Rightarrow> Some (ext_json ops m)
               | NotWritten \<Rightarrow> processed_file ?s2
               | Truncated \<Rightarrow> None)\<rparr>"
  note split = poll_split [OF fetch items]
  have item: "poll_item ops cfg issue ?s2 = ?s4"
    unfolding m by (rule poll_item_step [OF run clock wr, unfolded Let_def])
  have whole: "poll ops cfg s = poll_loop ops cfg post ?s4"
    using split(1) by (simp only: item)
  have terminal: "Status_r r = ''failed'' \<or> Status_r r = ''completed''"
    using ProcessIssue_terminal [of ops cfg "Key issue" ?s2] run by simp
  have "grows (\<lambda>c. \<not> is_entry c \<and> \<not> is_save c) (mark (CProcessIssue (Key issue)) ?s2) s3"
    using grows_weaken [OF grows_ProcessIssue [of "Key issue" ?s2 ops cfg]] run
    by (simp add: pipeline_call_not_entry pipeline_call_not_save)
  then obtain cs where cs: "calls s3 = calls ?s2 @ [CProcessIssue (Key issue)] @ cs"
      and quiet: "list_all (\<lambda>c. \<not> is_entry c \<and> \<not> is_save c) cs"
    by (auto simp: grows_def mark_def)
  have g2: "grows (\<lambda>c. True) s ?s2"
    by (rule grows_trans [OF split(3) poll_loop_grows])
  have before: "new_calls s ?s2 = new_calls s s1 @ new_calls s1 ?s2"
    by (rule new_calls_trans [OF split(3) poll_loop_grows])
  have keys_before: "entry_keys (new_calls s ?s2) = map Key pre"
    by (simp add: before split(2) entry_keys_append poll_loop_keys)
  have calls2: "calls ?s2 = calls s @ new_calls s ?s2"
    using g2 by (auto simp: grows_def new_calls_def)
  have g4: "grows (\<lambda>c. True) ?s4 (poll_loop ops cfg post ?s4)"
    by (rule poll_loop_grows)
  then have calls5: "calls (poll_loop ops cfg post ?s4) =
      calls ?s4 @ new_calls ?s4 (poll_loop ops cfg post ?s4)"
    by (auto simp: grows_def new_calls_def)
  have keys_after: "entry_keys (new_calls ?s4 (poll_loop ops cfg post ?s4)) = map Key post"
    by (rule poll_loop_keys)
  have "calls (poll ops cfg s) =
      calls s @ new_calls s ?s2 @ [CProcessIssue (Key issue)] @ cs @ [CNow, CSaveProcessed m] @
      new_calls ?s4 (poll_loop ops cfg post ?s4)"
    unfolding whole by (subst calls5) (simp add: cs calls2)
  then have "new_calls s (poll ops cfg s) =
      new_calls s ?s2 @ [CProcessIssue (Key issue)] @ cs @ [CNow, CSaveProcessed m] @
      new_calls ?s4 (poll_loop ops cfg post ?s4)"
    by (simp add: new_calls_def)
  with keys_before quiet keys_after
  have trace: "\<exists>before cs after.
       new_calls s (poll ops cfg s) =
         before @ [CProcessIssue (Key issue)] @ cs @ [CNow, CSaveProcessed m] @ after \<and>
       entry_keys before = map Key pre \<and>
       list_all (\<lambda>c. \<not> is_entry c \<and> \<not> is_save c) cs \<and>
       entry_keys after = map Key post"
    by blast
  have "Key issue \<in> dom (processed ?s4)"
    by (simp add: m)
  with poll_loop_dom [of ?s4 ops cfg post]
  have kept: "Key issue \<in> dom (processed (poll ops cfg s))"
    unfolding whole by blast
  have "keeps_files (new_process u) (snd (ProcessIssue ops c (args ! 2) (new_process u)))" for c
    by (rule keeps_ProcessIssue)
  with main_trigger_cases [of ops args u]
  have none: "processed (snd (main_trigger ops args u)) = Map.empty"
    by (auto simp: keeps_files_def new_process_def)
  have again: "main_trigger ops [a0, a1, k] u =
         (if Status_r (fst (ProcessIssue ops cfg' k (new_process u))) \<noteq> ''completed''
          then 1 else 0,
          snd (ProcessIssue ops cfg' k (new_process u)))"
    if "ext_ConfigExists ops (world u)" and "ext_LoadConfig ops (world u) = Inr cfg'"
    using main_trigger_runs [OF that, of a0 a1 k] by (simp add: prod_eq_iff)
  from terminal trace whole kept none main_trigger_keeps [of ops args u] again
  show ?thesis by blast
qed

theorem poll_records_each_item_witness:
  "GetAssignedIssues demo_ops demo_cfg (demo_state demo_world) =
     (Inr [demo_issue ''K-1'' ''Bug'' ''Open'', demo_issue ''K-2'' ''Epic'' ''Open'',
           demo_issue ''K-3'' ''Task'' ''Done''],
      (demo_state demo_world)\<lparr>calls := [CGetAssignedIssues]\<rparr>) \<and>
   filter (\<lambda>i. processed (demo_state demo_world) (Key i) = None)
     [demo_issue ''K-1'' ''Bug'' ''Open'', demo_issue ''K-2'' ''Epic'' ''Open'',
      demo_issue ''K-3'' ''Task'' ''Done''] =
     [demo_issue ''K-1'' ''Bug'' ''Open''] @ demo_issue ''K-2'' ''Epic'' ''Open'' #
     [demo_issue ''K-3'' ''Task'' ''Done''] \<and>
   ProcessIssue demo_ops demo_cfg (Key (demo_issue ''K-2'' ''Epic'' ''Open''))
       (poll_loop demo_ops demo_cfg [demo_issue ''K-1'' ''Bug'' ''Open'']
          ((demo_state demo_world)\<lparr>calls := [CGetAssignedIssues]\<rparr>)) =
     (\<lparr>IssueKey = ''K-2'', Status_r = ''failed'', PRUrl_r = [],
       Error_r = ''validate: invalid type: Epic''\<rparr>,
      snd (ProcessIssue demo_ops demo_cfg (Key (demo_issue ''K-2'' ''Epic'' ''Open''))
        (poll_loop demo_ops demo_cfg [demo_issue ''K-1'' ''Bug'' ''Open'']
          ((demo_state demo_world)\<lparr>calls := [CGetAssignedIssues]\<rparr>)))) \<and>
   ext_now demo_ops
       (world (snd (ProcessIssue demo_ops demo_cfg (Key (demo_issue ''K-2'' ''Epic'' ''Open''))
         (poll_loop demo_ops demo_cfg [demo_issue ''K-1'' ''Bug'' ''Open'']
           ((demo_state demo_world)\<lparr>calls := [CGetAssignedIssues]\<rparr>))))) =
     (''2024-01-14T10:30:00Z'', demo_world) \<and>
   ext_write_ledger demo_ops demo_world = (Written, demo_world) \<and>
   (\<exists>before cs after.
      new_calls (demo_state demo_world) (poll demo_ops demo_cfg (demo_state demo_world)) =
        before @ [CProcessIssue (Key (demo_issue ''K-2'' ''Epic'' ''Open''))] @ cs @
        [CNow, CSaveProcessed
           ((processed (poll_loop demo_ops demo_cfg [demo_issue ''K-1'' ''Bug'' ''Open'']
               ((demo_state demo_world)\<lparr>calls := [CGetAssignedIssues]\<rparr>)))
            (Key (demo_issue ''K-2'' ''Epic'' ''Open'') \<mapsto>
               \<lparr>ProcessedAt = ''2024-01-14T10:30:00Z'', Status_p = ''failed'', PRUrl_p = [],
                Error_p = ''validate: invalid type: Epic''\<rparr>))] @ after \<and>
      entry_keys before = map Key [demo_issue ''K-1'' ''Bug'' ''Open''] \<and>
      list_all (\<lambda>c. \<not> is_entry c \<and> \<not> is_save c) cs \<and>
      entry_keys after = map Key [demo_issue ''K-3'' ''Task'' ''Done'']) \<and>
   Key (demo_issue ''K-2'' ''Epic'' ''Open'') \<in>
     dom (processed (poll demo_ops demo_cfg (demo_state demo_world))) \<and>
   map is_save (new_calls (demo_state demo_world)
       (poll demo_ops demo_cfg (demo_state demo_world))) =
     [False,
      False, False, False, False, False, False, False, False, False, False, False, False,
      False, False, False, False, False, False, True,
      False, False, False, True,
      False, False, False, True] \<and>
   ext_ConfigExists demo_ops (world (demo_state demo_world)) \<and>
   ext_LoadConfig demo_ops (world (demo_state demo_world)) = Inr demo_cfg \<and>
   main_trigger demo_ops [''factory'', ''trigger'', ''K-1''] (demo_state demo_world) =
     (if Status_r (fst (ProcessIssue demo_ops demo_cfg ''K-1''
           (new_process (demo_state demo_world)))) \<noteq> ''completed''
      then 1 else 0,
      snd (ProcessIssue demo_ops demo_cfg ''K-1'' (new_process (demo_state demo_world)))) \<and>
   processed_file
     (snd (main_trigger demo_ops [''factory'', ''trigger'', ''K-1''] (demo_state demo_world))) =
     processed_file (demo_state demo_world)"
proof -
  let ?s = "demo_state demo_world"
  let ?s1 = "(demo_state demo_world)\<lparr>calls := [CGetAssignedIssues]\<rparr>"
  let ?run = "ProcessIssue demo_ops demo_cfg (Key (demo_issue ''K-2'' ''Epic'' ''Open''))
       (poll_loop demo_ops demo_cfg [demo_issue ''K-1'' ''Bug'' ''Open''] ?s1)"
  have fetch: "GetAssignedIssues demo_ops demo_cfg ?s =
     (Inr [demo_issue ''K-1'' ''Bug'' ''Open'', demo_issue ''K-2'' ''Epic'' ''Open'',
           demo_issue ''K-3'' ''Task'' ''Done''], ?s1)"
    by (simp add: GetAssignedIssues_def ext_def demo_ops_def demo_state_def demo_world_def)
  have items: "filter (\<lambda>i. processed ?s (Key i) = None)
     [demo_issue ''K-1'' ''Bug'' ''Open'', demo_issue ''K-2'' ''Epic'' ''Open'',
      demo_issue ''K-3'' ''Task'' ''Done''] =
     [demo_issue ''K-1'' ''Bug'' ''Open''] @ demo_issue ''K-2'' ''Epic'' ''Open'' #
     [demo_issue ''K-3'' ''Task'' ''Done'']"
    by (simp add: demo_state_def)
  have "fst ?run = \<lparr>IssueKey = ''K-2'', Status_r = ''failed'', PRUrl_r = [],
       Error_r = ''validate: invalid type: Epic''\<rparr>"
    by code_simp
  then have run: "?run = (\<lparr>IssueKey = ''K-2'', Status_r = ''failed'', PRUrl_r = [],
       Error_r = ''validate: invalid type: Epic''\<rparr>, snd ?run)"
    by (simp add: prod_eq_iff)
  have "world (snd ?run) = demo_world"
    by code_simp
  then have clock: "ext_now demo_ops (world (snd ?run)) = (''2024-01-14T10:30:00Z'', demo_world)"
    by (simp add: demo_ops_def)
  have wr: "ext_write_ledger demo_ops demo_world = (Written, demo_world)"
    by (simp add: demo_ops_def)
  have saves: "map is_save (new_calls ?s (poll demo_ops demo_cfg ?s)) =
     [False,
      False, False, False, False, False, False, False, False, False, False, False, False,
      False, False, False, False, False, False, True,
      False, False, False, True,
      False, False, False, True]"
    by code_simp
  have conf: "ext_ConfigExists demo_ops (world ?s)"
    "ext_LoadConfig demo_ops (world ?s) = Inr demo_cfg"
    by (simp_all add: demo_ops_def)
  note poll_records_each_item [OF fetch items run clock wr refl,
      of "[''factory'', ''trigger'', ''K-1'']" ?s demo_cfg "''factory''" "''trigger''" "''K-1''",
      unfolded Result.select_convs]
  with fetch items run clock wr saves conf show ?thesis by blast
qed

text \<open>
  C2 as stated fails at the command \<open>trigger\<close>: \<open>factory trigger K-1\<close> ends with the
  status \<open>completed\<close> and the exit code 0, yet no ledger file has been written and no write
  of the ledger has been called.
\<close>

theorem trigger_records_nothing:
  "Status_r (fst (ProcessIssue demo_ops demo_cfg ''K-1'' (new_process (demo_state demo_world))))
     = ''completed'' \<and>
   fst (main_trigger demo_ops [''factory'', ''trigger'', ''K-1''] (demo_state demo_world)) = 0 \<and>
   processed_file
     (snd (main_trigger demo_ops [''factory'', ''trigger'', ''K-1''] (demo_state demo_world)))
     = None \<and>
   list_all (\<lambda>c. \<not> is_save c) (calls
     (snd (main_trigger demo_ops [''factory'', ''trigger'', ''K-1''] (demo_state demo_world))))"
proof -
  have "Status_r (fst (ProcessIssue demo_ops demo_cfg ''K-1'' (new_process (demo_state demo_world))))
     = ''completed''"
    by code_simp
  moreover have
    "fst (main_trigger demo_ops [''factory'', ''trigger'', ''K-1''] (demo_state demo_world)) = 0"
    by code_simp
  moreover have "processed_file
     (snd (main_trigger demo_ops [''factory'', ''trigger'', ''K-1''] (demo_state demo_world)))
     = None"
    using main_trigger_keeps [of demo_ops "[''factory'', ''trigger'', ''K-1'']" "demo_state demo_world"]
    by (simp add: demo_state_def)
  moreover have "list_all (\<lambda>c. \<not> is_save c) (calls
     (snd (main_trigger demo_ops [''factory'', ''trigger'', ''K-1''] (demo_state demo_world))))"
    by code_simp
  ultimately show ?thesis by blast
qed

section \<open>Clearing the ledger\<close>

lemma loadProcessed_new_process:
  "loadProcessed (new_process s) = s\<lparr>processed := ledger_on_disk s\<rparr>"
  by (simp add: loadProcessed_def new_process_def ledger_on_disk_def split: option.split)

text \<open>
  What \<open>clear\<close> leaves behind, by the answer of the file system to the one write it makes.
\<close>

lemma main_clear_step:
  assumes "ext_write_ledger ops (world s) = (out, w')"
    and "m = (if length args \<ge> 3 \<and> args ! 2 \<noteq> [] then (ledger_on_disk s)(args ! 2 := None)
              else Map.empty)"
  shows "main_clear ops args s =
     (0, s\<lparr>world := w', calls := calls s @ [CSaveProcessed m], processed := m,
           processed_file :=
             (case out of
                Written \<Rightarrow> Some (ext_json ops m)
              | NotWritten \<Rightarrow> processed_file s
              | Truncated \<Rightarrow> None)\<rparr>)"
proof -
  let ?s1 = "s\<lparr>processed := m\<rparr>"
  have "main_clear ops args s = (0, saveProcessed ops ?s1)"
    using assms(2) by (simp add: main_clear_def ClearProcessed_def Let_def loadProcessed_new_process)
  moreover have "ext_write_ledger ops (world ?s1) = (out, w')"
    using assms(1) by simp
  ultimately show ?thesis
    by (cases out) (simp_all add: saveProcessed_step)
qed

text \<open>
  When the file system refuses the write (the directory of the ledger file is not there),
  \<open>clear\<close> says nothing of it and the ledger file is as it was.
\<close>

lemma main_clear_not_written:
  assumes "ext_write_ledger ops (world s) = (NotWritten, w')"
  shows "processed_file (snd (main_clear ops args s)) = processed_file s \<and>
         fst (main_clear ops args s) = 0"
  using main_clear_step [OF assms refl, of args] by simp

lemma ProcessIssue_enters:
  "\<exists>cs. new_calls s (snd (ProcessIssue ops cfg k s)) = CProcessIssue k # cs \<and>
        list_all (\<lambda>c. \<not> is_entry c \<and> \<not> is_save c) cs"
proof -
  have "grows (\<lambda>c. \<not> is_entry c \<and> \<not> is_save c) (mark (CProcessIssue k) s)
      (snd (ProcessIssue ops cfg k s))"
    by (rule grows_weaken [OF grows_ProcessIssue])
      (simp add: pipeline_call_not_entry pipeline_call_not_save)
  then show ?thesis
    by (auto simp: grows_def mark_def new_calls_def)
qed

text \<open>
  C6. Let the write of the ledger file succeed, and let the ledgers that are written be read
  back from their encoding as they are. The command \<open>clear\<close> without a key is \<open>clear\<close> with
  the empty key, and it leaves the empty map in memory and in the ledger file. With a key
  \<open>k\<close> it leaves, in memory and in the ledger file, the ledger that was in the file without
  the entry of \<open>k\<close>, every other key with the entry it had. In both cases the write of that
  ledger is the one call, and nothing else of the state changes. After \<open>clear\<close> with \<open>k\<close>, the
  command \<open>trigger\<close> with \<open>k\<close> returns what \<open>ProcessIssue\<close> returns on \<open>k\<close> in a process of
  its own, and its calls are the entry of \<open>ProcessIssue\<close> on \<open>k\<close> followed by the calls of
  that one run.
\<close>

theorem clear_then_trigger:
  assumes wr: "ext_write_ledger ops (world s) = (Written, w')"
    and st0: "json_stable ops Map.empty"
    and st: "json_stable ops ((ledger_on_disk s)(k := None))"
  shows "main_clear ops [a0, a1] s = main_clear ops [a0, a1, []] s \<and>
    main_clear ops [a0, a1, []] s =
      (0, s\<lparr>world := w', calls := calls s @ [CSaveProcessed Map.empty],
            processed := Map.empty, processed_file := Some Map.empty\<rparr>) \<and>
    (k \<noteq> [] \<longrightarrow>
       main_clear ops [a0, a1, k] s =
         (0, s\<lparr>world := w', calls := calls s @ [CSaveProcessed ((ledger_on_disk s)(k := None))],
               processed := (ledger_on_disk s)(k := None),
               processed_file := Some ((ledger_on_disk s)(k := None))\<rparr>) \<and>
       (\<forall>k'. ledger_on_disk (snd (main_clear ops [a0, a1, k] s)) k' =
             (if k' = k then None else ledger_on_disk s k'))) \<and>
    (ext_ConfigExists ops w' \<and> ext_LoadConfig ops w' = Inr cfg \<longrightarrow>
       main_trigger ops [b0, b1, k] (snd (main_clear ops [a0, a1, k] s)) =
         (if Status_r (fst (ProcessIssue ops cfg k (new_process (snd (main_clear ops [a0, a1, k] s)))))
               \<noteq> ''completed''
          then 1 else 0,
          snd (ProcessIssue ops cfg k (new_process (snd (main_clear ops [a0, a1, k] s))))) \<and>
       (\<exists>cs. new_calls (snd (main_clear ops [a0, a1, k] s))
               (snd (main_trigger ops [b0, b1, k] (snd (main_clear ops [a0, a1, k] s)))) =
             CProcessIssue k # cs \<and>
             list_all (\<lambda>c. \<not> is_entry c \<and> \<not> is_save c) cs))"
proof -
  have none: "main_clear ops [a0, a1] s = main_clear ops [a0, a1, []] s"
    by (simp add: main_clear_def)
  have all: "main_clear ops [a0, a1, []] s =
      (0, s\<lparr>world := w', calls := calls s @ [CSaveProcessed Map.empty],
            processed := Map.empty, processed_file := Some Map.empty\<rparr>)"
    using main_clear_step [OF wr refl, of "[a0, a1, []]"] st0
    by (simp add: json_stable_def)
  have one: "main_clear ops [a0, a1, k] s =
         (0, s\<lparr>world := w', calls := calls s @ [CSaveProcessed ((ledger_on_disk s)(k := None))],
               processed := (ledger_on_disk s)(k := None),
               processed_file := Some ((ledger_on_disk s)(k := None))\<rparr>)"
    if "k \<noteq> []"
    using main_clear_step [OF wr refl, of "[a0, a1, k]"] st that
    by (simp add: json_stable_def)
  have others: "\<forall>k'. ledger_on_disk (snd (main_clear ops [a0, a1, k] s)) k' =
             (if k' = k then None else ledger_on_disk s k')"
    if "k \<noteq> []"
    unfolding one [OF that] by (simp add: ledger_on_disk_def)
  have w: "world (snd (main_clear ops [a0, a1, k] s)) = w'"
    using main_clear_step [OF wr refl, of "[a0, a1, k]"] by simp
  have again: "main_trigger ops [b0, b1, k] (snd (main_clear ops [a0, a1, k] s)) =
         (if Status_r (fst (ProcessIssue ops cfg k (new_process (snd (main_clear ops [a0, a1, k] s)))))
               \<noteq> ''completed''
          then 1 else 0,
          snd (ProcessIssue ops cfg k (new_process (snd (main_clear ops [a0, a1, k] s))))) \<and>
       (\<exists>cs. new_calls (snd (main_clear ops [a0, a1, k] s))
               (snd (main_trigger ops [b0, b1, k] (snd (main_clear ops [a0, a1, k] s)))) =
             CProcessIssue k # cs \<and>
             list_all (\<lambda>c. \<not> is_entry c \<and> \<not> is_save c) cs)"
    if conf: "ext_ConfigExists ops w'" "ext_LoadConfig ops w' = Inr cfg"
  proof -
    let ?s = "snd (main_clear ops [a0, a1, k] s)"
    from conf w have "ext_ConfigExists ops (world ?s)" "ext_LoadConfig ops (world ?s) = Inr cfg"
      by simp_all
    from main_trigger_runs [OF this, of b0 b1 k]
    have run: "snd (main_trigger ops [b0, b1, k] ?s) = snd (ProcessIssue ops cfg k (new_process ?s))"
      and code: "fst (main_trigger ops [b0, b1, k] ?s) =
           (if Status_r (fst (ProcessIssue ops cfg k (new_process ?s))) \<noteq> ''completed'' then 1 else 0)"
      by simp_all
    from run code have whole: "main_trigger ops [b0, b1, k] ?s =
         (if Status_r (fst (ProcessIssue ops cfg k (new_process ?s))) \<noteq> ''completed''
          then 1 else 0,
          snd (ProcessIssue ops cfg k (new_process ?s)))"
      by (simp add: prod_eq_iff)
    have "new_calls ?s (snd (ProcessIssue ops cfg k (new_process ?s))) =
          new_calls (new_process ?s) (snd (ProcessIssue ops cfg k (new_process ?s)))"
      by (simp add: new_calls_def new_process_def)
    with ProcessIssue_enters [of "new_process ?s" ops cfg k] run
    have "\<exists>cs. new_calls ?s (snd (main_trigger ops [b0, b1, k] ?s)) = CProcessIssue k # cs \<and>
             list_all (\<lambda>c. \<not> is_entry c \<and> \<not> is_save c) cs"
      by simp
    with whole show ?thesis by blast
  qed
  from none all one others again show ?thesis by blast
qed

theorem clear_then_trigger_witness:
  "ext_write_ledger demo_ops (world ((demo_state demo_world)\<lparr>processed_file :=
       Some [''K-1'' \<mapsto> \<lparr>ProcessedAt = ''2024-01-14T10:30:00Z'', Status_p = ''failed'',
                         PRUrl_p = [], Error_p = ''claude: exit status 1''\<rparr>,
             ''K-2'' \<mapsto> \<lparr>ProcessedAt = ''2024-01-14T10:35:00Z'', Status_p = ''completed'',
                         PRUrl_p = ''https://example.org/pull/1'', Error_p = []\<rparr>]\<rparr>)) =
     (Written, demo_world) \<and>
   json_stable demo_ops Map.empty \<and>
   json_stable demo_ops
     ((ledger_on_disk ((demo_state demo_world)\<lparr>processed_file :=
       Some [''K-1'' \<mapsto> \<lparr>ProcessedAt = ''2024-01-14T10:30:00Z'', Status_p = ''failed'',
                         PRUrl_p = [], Error_p = ''claude: exit status 1''\<rparr>,
             ''K-2'' \<mapsto> \<lparr>ProcessedAt = ''2024-01-14T10:35:00Z'', Status_p = ''completed'',
                         PRUrl_p = ''https://example.org/pull/1'', Error_p = []\<rparr>]\<rparr>))
      (''K-1'' := None)) \<and>
   ''K-1'' \<noteq> [] \<and>
   ext_ConfigExists demo_ops demo_world \<and>
   ext_LoadConfig demo_ops demo_world = Inr demo_cfg \<and>
   processed_file (snd (main_clear demo_ops [''factory'', ''clear'']
     ((demo_state demo_world)\<lparr>processed_file :=
       Some [''K-1'' \<mapsto> \<lparr>ProcessedAt = ''2024-01-14T10:30:00Z'', Status_p = ''failed'',
                         PRUrl_p = [], Error_p = ''claude: exit status 1''\<rparr>,
             ''K-2'' \<mapsto> \<lparr>ProcessedAt = ''2024-01-14T10:35:00Z'', Status_p = ''completed'',
                         PRUrl_p = ''https://example.org/pull/1'', Error_p = []\<rparr>]\<rparr>))) =
     Some Map.empty \<and>
   processed_file (snd (main_clear demo_ops [''factory'', ''clear'', ''K-1'']
     ((demo_state demo_world)\<lparr>processed_file :=
       Some [''K-1'' \<mapsto> \<lparr>ProcessedAt = ''2024-01-14T10:30:00Z'', Status_p = ''failed'',
                         PRUrl_p = [], Error_p = ''claude: exit status 1''\<rparr>,
             ''K-2'' \<mapsto> \<lparr>ProcessedAt = ''2024-01-14T10:35:00Z'', Status_p = ''completed'',
                         PRUrl_p = ''https://example.org/pull/1'', Error_p = []\<rparr>]\<rparr>))) =
     Some [''K-2'' \<mapsto> \<lparr>ProcessedAt = ''2024-01-14T10:35:00Z'', Status_p = ''completed'',
                       PRUrl_p = ''https://example.org/pull/1'', Error_p = []\<rparr>] \<and>
   (\<exists>cs. new_calls
       (snd (main_clear demo_ops [''factory'', ''clear'', ''K-1'']
         ((demo_state demo_world)\<lparr>processed_file :=
           Some [''K-1'' \<mapsto> \<lparr>ProcessedAt = ''2024-01-14T10:30:00Z'', Status_p = ''failed'',
                             PRUrl_p = [], Error_p = ''claude: exit status 1''\<rparr>,
                 ''K-2'' \<mapsto> \<lparr>ProcessedAt = ''2024-01-14T10:35:00Z'', Status_p = ''completed'',
                             PRUrl_p = ''https://example.org/pull/1'', Error_p = []\<rparr>]\<rparr>)))
       (snd (main_trigger demo_ops [''factory'', ''trigger'', ''K-1'']
         (snd (main_clear demo_ops [''factory'', ''clear'', ''K-1'']
           ((demo_state demo_world)\<lparr>processed_file :=
             Some [''K-1'' \<mapsto> \<lparr>ProcessedAt = ''2024-01-14T10:30:00Z'', Status_p = ''failed'',
                               PRUrl_p = [], Error_p = ''claude: exit status 1''\<rparr>,
                   ''K-2'' \<mapsto> \<lparr>ProcessedAt = ''2024-01-14T10:35:00Z'', Status_p = ''completed'',
                               PRUrl_p = ''https://example.org/pull/1'', Error_p = []\<rparr>]\<rparr>))))) =
      CProcessIssue ''K-1'' # cs \<and>
      list_all (\<lambda>c. \<not> is_entry c \<and> \<not> is_save c) cs)"
proof -
  let ?r1 = "\<lparr>ProcessedAt = ''2024-01-14T10:30:00Z'', Status_p = ''failed'',
             PRUrl_p = [], Error_p = ''claude: exit status 1''\<rparr>"
  let ?r2 = "\<lparr>ProcessedAt = ''2024-01-14T10:35:00Z'', Status_p = ''completed'',
             PRUrl_p = ''https://example.org/pull/1'', Error_p = []\<rparr>"
  let ?s = "(demo_state demo_world)\<lparr>processed_file := Some [''K-1'' \<mapsto> ?r1, ''K-2'' \<mapsto> ?r2]\<rparr>"
  have wr: "ext_write_ledger demo_ops (world ?s) = (Written, demo_world)"
    by (simp add: demo_ops_def demo_state_def)
  have st0: "json_stable demo_ops Map.empty"
    by (simp add: json_stable_def demo_ops_def)
  have st: "json_stable demo_ops ((ledger_on_disk ?s)(''K-1'' := None))"
    by (simp add: json_stable_def demo_ops_def)
  have k: "''K-1'' \<noteq> []" by simp
  have conf: "ext_ConfigExists demo_ops demo_world"
    "ext_LoadConfig demo_ops demo_world = Inr demo_cfg"
    by (simp_all add: demo_ops_def)
  have left: "(ledger_on_disk ?s)(''K-1'' := None) = [''K-2'' \<mapsto> ?r2]"
    by (rule ext) (simp add: ledger_on_disk_def)
  note clear_then_trigger [OF wr st0 st, of "''factory''" "''clear''" demo_cfg
      "''factory''" "''trigger''"]
  with k conf have
    none: "main_clear demo_ops [''factory'', ''clear''] ?s =
           main_clear demo_ops [''factory'', ''clear'', []] ?s"
    and all: "main_clear demo_ops [''factory'', ''clear'', []] ?s =
      (0, ?s\<lparr>world := demo_world, calls := calls ?s @ [CSaveProcessed Map.empty],
             processed := Map.empty, processed_file := Some Map.empty\<rparr>)"
    and one: "main_clear demo_ops [''factory'', ''clear'', ''K-1''] ?s =
      (0, ?s\<lparr>world := demo_world,
             calls := calls ?s @ [CSaveProcessed ((ledger_on_disk ?s)(''K-1'' := None))],
             processed := (ledger_on_disk ?s)(''K-1'' := None),
             processed_file := Some ((ledger_on_disk ?s)(''K-1'' := None))\<rparr>)"
    and again: "\<exists>cs. new_calls (snd (main_clear demo_ops [''factory'', ''clear'', ''K-1''] ?s))
         (snd (main_trigger demo_ops [''factory'', ''trigger'', ''K-1'']
           (snd (main_clear demo_ops [''factory'', ''clear'', ''K-1''] ?s)))) =
        CProcessIssue ''K-1'' # cs \<and>
        list_all (\<lambda>c. \<not> is_entry c \<and> \<not> is_save c) cs"
    by blast+
  have f0: "processed_file (snd (main_clear demo_ops [''factory'', ''clear''] ?s)) = Some Map.empty"
    unfolding none all by simp
  have f1: "processed_file (snd (main_clear demo_ops [''factory'', ''clear'', ''K-1''] ?s)) =
      Some [''K-2'' \<mapsto> ?r2]"
    unfolding one left by simp
  from wr st0 st k conf f0 f1 again show ?thesis by blast
qed

section \<open>Starting the daemon\<close>















section \<open>The acceptance criteria\<close>

lemma strip_ci_Nil: "strip_ci [] s = Some s"
  by (simp add: strip_ci_def)

lemma strip_ci_Cons:
  "strip_ci (x # w) s =
     (case s of [] \<Rightarrow> None | c # cs \<Rightarrow> if lower_byte c = x then strip_ci w cs else None)"
  by (cases s) (auto simp: strip_ci_def)

lemma rx_literal:
  "rx_match (literal_ci w @ as) s =
     (case strip_ci w s of
        None \<Rightarrow> None
      | Some rest \<Rightarrow>
          map_option (\<lambda>r. map (\<lambda>c. [c]) (take (length w) s) @ r) (rx_match as rest))"
proof (induction w arbitrary: s)
  case Nil
  show ?case by (cases "rx_match as s") (simp_all add: literal_ci_def strip_ci_Nil)
next
  case (Cons x w)
  have IH: "\<And>t. rx_match (literal_ci w @ as) t =
     (case strip_ci w t of
        None \<Rightarrow> None
      | Some rest \<Rightarrow>
          map_option (\<lambda>r. map (\<lambda>c. [c]) (take (length w) t) @ r) (rx_match as rest))"
    using Cons.IH by simp
  show ?case
  proof (cases s)
    case Nil
    then show ?thesis by (simp add: literal_ci_def strip_ci_Cons)
  next
    case (Cons c cs)
    have unfold: "literal_ci (x # w) @ as = One (ci x) # (literal_ci w @ as)"
      by (simp add: literal_ci_def)
    have eq: "\<And>(a::string) ys. (\<lambda>x. a # ys @ x) = (@) (a # ys)"
      by (intro ext) simp
    show ?thesis
      unfolding unfold Cons
      by (simp add: IH strip_ci_Cons ci_def option.map_comp comp_def eq split: option.split)
  qed
qed

lemma rx_greedy_disjoint:
  assumes "\<And>c. p c \<Longrightarrow> \<not> q c"
  shows "rx_match (Greedy p # One q # as) s =
         map_option ((#) (takeWhile p s)) (rx_match (One q # as) (dropWhile p s))"
proof (induction s)
  case Nil
  show ?case by simp
next
  case (Cons c cs)
  show ?case
  proof (cases "p c")
    case False
    then show ?thesis by simp
  next
    case True
    then have "\<not> q c" by (rule assms)
    with True Cons.IH show ?thesis
      by (cases "rx_match (One q # as) (dropWhile p cs)") (simp_all add: cons_first_def)
  qed
qed

lemma rx_greedy_total:
  assumes "\<And>t. rx_match as t \<noteq> None"
  shows "rx_match (Greedy p # as) s =
         map_option ((#) (takeWhile p s)) (rx_match as (dropWhile p s))"
proof (induction s)
  case Nil
  show ?case by simp
next
  case (Cons c cs)
  obtain r where r: "rx_match as (dropWhile p cs) = Some r"
    using assms [of "dropWhile p cs"] by auto
  with Cons.IH show ?case by (simp add: cons_first_def)
qed

lemma rx_blank_or_end:
  "rx_match [Alt [One is_nl, One is_nl] [EndOfText]] s =
     (case s of
        [] \<Rightarrow> Some [[]]
      | [c] \<Rightarrow> None
      | c # d # cs \<Rightarrow> if c = CHR 0x0A \<and> d = CHR 0x0A then Some [[c, d]] else None)"
  by (auto simp: group_def is_nl_def split: list.split)

lemma rx_tail:
  "\<exists>e. rx_match [Lazy (\<lambda>c. True), Alt [One is_nl, One is_nl] [EndOfText]] s =
        Some [until_blank s, e]"
proof (induction s)
  case Nil
  show ?case by (simp add: rx_blank_or_end del: rx_match.simps(6))
next
  case (Cons c cs)
  show ?case
  proof (cases cs)
    case Nil
    then show ?thesis by (simp add: rx_blank_or_end cons_first_def del: rx_match.simps(6))
  next
    case (Cons d ds)
    with Cons.IH show ?thesis
      by (auto simp: rx_blank_or_end cons_first_def simp del: rx_match.simps(6))
  qed
qed

lemma strip_ci_length: "strip_ci w s = Some rest \<Longrightarrow> length w \<le> length s"
  by (simp add: strip_ci_def split: if_splits)

lemma space_not_c: "is_s c \<Longrightarrow> \<not> ci CHR ''c'' c"
  by (auto simp: is_s_def ci_def lower_byte_def is_upper_def byte_of_def)

lemma rx_tail_total:
  "rx_match [Lazy (\<lambda>c. True), Alt [One is_nl, One is_nl] [EndOfText]] t \<noteq> None"
  using rx_tail [of t] by auto

lemma ac_regex_split:
  "ac_regex = literal_ci ''acceptance'' @
     (Greedy is_s # One (ci CHR ''c'') #
       (literal_ci ''riteria'' @
         [Greedy colon_or_s, Lazy (\<lambda>c. True), Alt [One is_nl, One is_nl] [EndOfText]]))"
  by (simp add: ac_regex_def literal_ci_def)

lemma criteria_split:
  "One (ci CHR ''c'') # (literal_ci ''riteria'' @ as) = literal_ci ''criteria'' @ as"
  by (simp add: literal_ci_def)

lemma rx_ac_middle:
  "rx_match (Greedy is_s # One (ci CHR ''c'') # (literal_ci ''riteria'' @ as)) r1 =
   map_option ((#) (takeWhile is_s r1))
     (rx_match (literal_ci ''criteria'' @ as) (dropWhile is_s r1))"
proof -
  have "rx_match (Greedy is_s # One (ci CHR ''c'') # (literal_ci ''riteria'' @ as)) r1 =
     map_option ((#) (takeWhile is_s r1))
       (rx_match (One (ci CHR ''c'') # (literal_ci ''riteria'' @ as)) (dropWhile is_s r1))"
    by (rule rx_greedy_disjoint [OF space_not_c])
  then show ?thesis by (simp only: criteria_split)
qed

lemma rx_ac_none:
  assumes "marker_at s = None"
  shows "rx_match ac_regex s = None"
proof (cases "strip_ci ''acceptance'' s")
  case None
  then show ?thesis
    by (simp only: ac_regex_split rx_literal option.case)
next
  case (Some r1)
  with assms have "strip_ci ''criteria'' (dropWhile is_s r1) = None"
    by (simp add: marker_at_def)
  then have "rx_match (literal_ci ''criteria'' @
       [Greedy colon_or_s, Lazy (\<lambda>c. True), Alt [One is_nl, One is_nl] [EndOfText]])
       (dropWhile is_s r1) = None"
    by (simp only: rx_literal option.case)
  then show ?thesis
    by (simp only: ac_regex_split rx_literal Some option.case rx_ac_middle option.map)
qed

lemma rx_ac_some:
  assumes "marker_at s = Some r2"
  shows "\<exists>r. rx_match ac_regex s = Some r \<and> r ! 20 = until_blank (dropWhile colon_or_s r2)"
proof -
  let ?tail = "[Greedy colon_or_s, Lazy (\<lambda>c. True), Alt [One is_nl, One is_nl] [EndOfText]]"
  from assms obtain r1 where r1: "strip_ci ''acceptance'' s = Some r1"
    and r2: "strip_ci ''criteria'' (dropWhile is_s r1) = Some r2"
    by (auto simp: marker_at_def split: option.splits)
  let ?pre1 = "map (\<lambda>c. [c]) (take (length ''acceptance'') s)"
  let ?pre2 = "map (\<lambda>c. [c]) (take (length ''criteria'') (dropWhile is_s r1))"
  have l1: "length ?pre1 = 10"
    using strip_ci_length [OF r1] by simp
  have l2: "length ?pre2 = 8"
    using strip_ci_length [OF r2] by simp
  obtain e where e: "rx_match [Lazy (\<lambda>c. True), Alt [One is_nl, One is_nl] [EndOfText]]
       (dropWhile colon_or_s r2) = Some [until_blank (dropWhile colon_or_s r2), e]"
    using rx_tail [of "dropWhile colon_or_s r2"] by blast
  have tail: "rx_match ?tail r2 =
      Some [takeWhile colon_or_s r2, until_blank (dropWhile colon_or_s r2), e]"
    using rx_greedy_total [of "[Lazy (\<lambda>c. True), Alt [One is_nl, One is_nl] [EndOfText]]"
        colon_or_s r2, OF rx_tail_total] e
    by simp
  have crit: "rx_match (literal_ci ''criteria'' @ ?tail) (dropWhile is_s r1) =
      Some (?pre2 @ [takeWhile colon_or_s r2, until_blank (dropWhile colon_or_s r2), e])"
    by (simp only: rx_literal r2 tail option.case option.map)
  have mid: "rx_match (Greedy is_s # One (ci CHR ''c'') # (literal_ci ''riteria'' @ ?tail)) r1 =
      Some (takeWhile is_s r1 #
        ?pre2 @ [takeWhile colon_or_s r2, until_blank (dropWhile colon_or_s r2), e])"
    by (simp only: rx_ac_middle crit option.map)
  have whole: "rx_match ac_regex s =
      Some (?pre1 @ takeWhile is_s r1 #
        ?pre2 @ [takeWhile colon_or_s r2, until_blank (dropWhile colon_or_s r2), e])"
    by (simp only: ac_regex_split rx_literal r1 mid option.case option.map)
  have "(?pre1 @ takeWhile is_s r1 #
        ?pre2 @ [takeWhile colon_or_s r2, until_blank (dropWhile colon_or_s r2), e]) ! 20 =
        until_blank (dropWhile colon_or_s r2)"
    using l1 l2 by (simp add: nth_append nth_Cons')
  with whole show ?thesis by blast
qed

lemma find_match_none: "after_marker s = None \<Longrightarrow> find_match ac_regex s = None"
proof (induction s)
  case Nil
  have "marker_at [] = None" by (simp add: marker_at_def strip_ci_def)
  then show ?case by (simp add: rx_ac_none)
next
  case (Cons c cs)
  then show ?case by (auto simp: rx_ac_none split: option.splits)
qed

lemma find_match_some:
  "after_marker s = Some r2 \<Longrightarrow>
   \<exists>r. find_match ac_regex s = Some r \<and> r ! 20 = until_blank (dropWhile colon_or_s r2)"
proof (induction s)
  case Nil
  then show ?case by simp
next
  case (Cons c cs)
  show ?case
  proof (cases "marker_at (c # cs)")
    case None
    with Cons show ?thesis by (simp add: rx_ac_none)
  next
    case (Some r)
    with Cons.prems have "r = r2" by simp
    with Some rx_ac_some [of "c # cs" r2] show ?thesis by auto
  qed
qed

lemma extractAC_after_marker:
  "extractAC desc =
     (case after_marker desc of
        None \<Rightarrow> []
      | Some r \<Rightarrow> TrimSpace (until_blank (dropWhile colon_or_s r)))"
proof (cases "after_marker desc")
  case None
  from find_match_none [OF this] None show ?thesis
    by (simp add: extractAC_def FindStringSubmatch_def)
next
  case (Some r2)
  from find_match_some [OF this] Some show ?thesis
    by (auto simp: extractAC_def FindStringSubmatch_def)
qed

text \<open>
  C9, as the code has it. \<open>extractAC\<close> is a function of the description alone. It looks
  for the leftmost \<open>acceptance\<close>, white space, \<open>criteria\<close>, in any case; it skips every
  colon and white space character behind the marker, blank lines among them; it takes
  the text from there up to the next blank line or the end of the text, and returns it
  trimmed. Only the leftmost marker counts, and without a marker the result is empty.
\<close>

theorem extractAC_captures:
  "extractAC desc =
     (case after_marker desc of
        None \<Rightarrow> []
      | Some r \<Rightarrow> TrimSpace (until_blank (dropWhile colon_or_s r)))"
  by (rule extractAC_after_marker)

theorem extractAC_captures_witness:
  "after_marker ''Login fails.\<newline>\<newline>Acceptance Criteria:\<newline>- a\<newline>- b\<newline>\<newline>Notes'' =
     Some '':\<newline>- a\<newline>- b\<newline>\<newline>Notes'' \<and>
   extractAC ''Login fails.\<newline>\<newline>Acceptance Criteria:\<newline>- a\<newline>- b\<newline>\<newline>Notes'' =
     ''- a\<newline>- b'' \<and>
   after_marker ''no marker here'' = None \<and>
   extractAC ''no marker here'' = []"
proof -
  have m: "after_marker
      ''Login fails.\<newline>\<newline>Acceptance Criteria:\<newline>- a\<newline>- b\<newline>\<newline>Notes'' =
     Some '':\<newline>- a\<newline>- b\<newline>\<newline>Notes''"
    by code_simp
  have t: "TrimSpace (until_blank (dropWhile colon_or_s '':\<newline>- a\<newline>- b\<newline>\<newline>Notes'')) =
     ''- a\<newline>- b''"
    by code_simp
  have n: "after_marker ''no marker here'' = None"
    by code_simp
  from extractAC_captures
    [of "''Login fails.\<newline>\<newline>Acceptance Criteria:\<newline>- a\<newline>- b\<newline>\<newline>Notes''"]
    extractAC_captures [of "''no marker here''"] m t n
  show ?thesis by simp
qed

text \<open>
  C9 as stated fails where a blank line follows the marker directly: the text from behind
  the marker up to the next blank line is empty, but \<open>extractAC\<close> skips that blank line
  and returns the paragraph behind it.
\<close>

theorem extractAC_skips_blank_line:
  "after_marker ''Acceptance Criteria\<newline>\<newline>foo\<newline>\<newline>bar'' =
     Some ''\<newline>\<newline>foo\<newline>\<newline>bar'' \<and>
   until_blank ''\<newline>\<newline>foo\<newline>\<newline>bar'' = [] \<and>
   spec_extractAC ''Acceptance Criteria\<newline>\<newline>foo\<newline>\<newline>bar'' = [] \<and>
   extractAC ''Acceptance Criteria\<newline>\<newline>foo\<newline>\<newline>bar'' = ''foo''"
  by code_simp

end
